theory Spec2Isabelle
  imports Complex_Main "HOL-Library.Multiset"
begin

section \<open>JavaScript numbers\<close>

text \<open>
  The engine of \<^verbatim>\<open>src/api/prediction.ts\<close> computes with JavaScript numbers. A finite
  number is modelled by the real it denotes (rounding of doubles is not modelled, and
  the decimal literals \<^verbatim>\<open>0.8\<close>, \<^verbatim>\<open>0.3\<close>, \<^verbatim>\<open>1.5\<close>, \<^verbatim>\<open>1.2\<close>, \<^verbatim>\<open>0.5\<close> are the
  rationals they are written as); the special values \<^verbatim>\<open>Infinity\<close>, \<^verbatim>\<open>-Infinity\<close> and
  \<^verbatim>\<open>NaN\<close> are kept, because the engine produces them: \<^verbatim>\<open>Math.max()\<close> of no arguments
  is \<^verbatim>\<open>-Infinity\<close>, and \<^verbatim>\<open>0 / 0\<close> is \<^verbatim>\<open>NaN\<close>. Zero is unsigned: a result \<^verbatim>\<open>-0\<close>
  is the number 0, and every zero divisor of the engine is a length or a count, that is \<^verbatim>\<open>+0\<close>.
\<close>

datatype jsnum = Fin real | PInf | NInf | NaN

fun jneg :: "jsnum \<Rightarrow> jsnum" where
  "jneg (Fin a) = Fin (- a)"
| "jneg PInf = NInf"
| "jneg NInf = PInf"
| "jneg NaN = NaN"

fun jadd :: "jsnum \<Rightarrow> jsnum \<Rightarrow> jsnum" where
  "jadd NaN b = NaN"
| "jadd a NaN = NaN"
| "jadd (Fin a) (Fin b) = Fin (a + b)"
| "jadd PInf NInf = NaN"
| "jadd NInf PInf = NaN"
| "jadd PInf b = PInf"
| "jadd a PInf = PInf"
| "jadd NInf b = NInf"
| "jadd a NInf = NInf"

definition jsub :: "jsnum \<Rightarrow> jsnum \<Rightarrow> jsnum" where
  "jsub a b = jadd a (jneg b)"

fun jmul :: "jsnum \<Rightarrow> jsnum \<Rightarrow> jsnum" where
  "jmul NaN b = NaN"
| "jmul a NaN = NaN"
| "jmul (Fin a) (Fin b) = Fin (a * b)"
| "jmul (Fin a) PInf = (if a = 0 then NaN else if 0 < a then PInf else NInf)"
| "jmul (Fin a) NInf = (if a = 0 then NaN else if 0 < a then NInf else PInf)"
| "jmul PInf (Fin b) = (if b = 0 then NaN else if 0 < b then PInf else NInf)"
| "jmul NInf (Fin b) = (if b = 0 then NaN else if 0 < b then NInf else PInf)"
| "jmul PInf PInf = PInf"
| "jmul PInf NInf = NInf"
| "jmul NInf PInf = NInf"
| "jmul NInf NInf = PInf"

fun jdiv :: "jsnum \<Rightarrow> jsnum \<Rightarrow> jsnum" where
  "jdiv NaN b = NaN"
| "jdiv a NaN = NaN"
| "jdiv (Fin a) (Fin b) =
     (if b \<noteq> 0 then Fin (a / b) else if a = 0 then NaN else if 0 < a then PInf else NInf)"
| "jdiv (Fin a) PInf = Fin 0"
| "jdiv (Fin a) NInf = Fin 0"
| "jdiv PInf (Fin b) = (if 0 \<le> b then PInf else NInf)"
| "jdiv NInf (Fin b) = (if 0 \<le> b then NInf else PInf)"
| "jdiv a b = NaN"

text \<open>The comparison operators: every comparison with \<^verbatim>\<open>NaN\<close> is false.\<close>

fun jlt :: "jsnum \<Rightarrow> jsnum \<Rightarrow> bool" where
  "jlt NaN b = False"
| "jlt a NaN = False"
| "jlt (Fin a) (Fin b) = (a < b)"
| "jlt a NInf = False"
| "jlt NInf b = True"
| "jlt PInf b = False"
| "jlt a PInf = True"

definition jgt :: "jsnum \<Rightarrow> jsnum \<Rightarrow> bool" where
  "jgt a b = jlt b a"

definition jle :: "jsnum \<Rightarrow> jsnum \<Rightarrow> bool" where
  "jle a b = (a \<noteq> NaN \<and> b \<noteq> NaN \<and> \<not> jlt b a)"

definition jge :: "jsnum \<Rightarrow> jsnum \<Rightarrow> bool" where
  "jge a b = jle b a"

text \<open>\<^verbatim>\<open>Math.abs\<close>, \<^verbatim>\<open>Math.sqrt\<close>, \<^verbatim>\<open>Math.round\<close> (half rounds up), \<^verbatim>\<open>Math.pow(x, 2)\<close>.\<close>

fun Math_abs :: "jsnum \<Rightarrow> jsnum" where
  "Math_abs (Fin a) = Fin \<bar>a\<bar>"
| "Math_abs PInf = PInf"
| "Math_abs NInf = PInf"
| "Math_abs NaN = NaN"

fun Math_sqrt :: "jsnum \<Rightarrow> jsnum" where
  "Math_sqrt (Fin a) = (if a < 0 then NaN else Fin (sqrt a))"
| "Math_sqrt PInf = PInf"
| "Math_sqrt NInf = NaN"
| "Math_sqrt NaN = NaN"

fun Math_round :: "jsnum \<Rightarrow> jsnum" where
  "Math_round (Fin a) = Fin (of_int \<lfloor>a + 1 / 2\<rfloor>)"
| "Math_round PInf = PInf"
| "Math_round NInf = NInf"
| "Math_round NaN = NaN"

definition Math_pow2 :: "jsnum \<Rightarrow> jsnum" where
  "Math_pow2 a = jmul a a"

text \<open>
  \<^verbatim>\<open>Math.max\<close> and \<^verbatim>\<open>Math.min\<close>: \<^verbatim>\<open>NaN\<close> if an argument is \<^verbatim>\<open>NaN\<close>; spread over an
  array they start from \<^verbatim>\<open>-Infinity\<close> and \<^verbatim>\<open>Infinity\<close>, the results for no argument.
\<close>

definition Math_max :: "jsnum \<Rightarrow> jsnum \<Rightarrow> jsnum" where
  "Math_max a b = (if a = NaN \<or> b = NaN then NaN else if jlt a b then b else a)"

definition Math_min :: "jsnum \<Rightarrow> jsnum \<Rightarrow> jsnum" where
  "Math_min a b = (if a = NaN \<or> b = NaN then NaN else if jlt b a then b else a)"

definition Math_max_spread :: "jsnum list \<Rightarrow> jsnum" where
  "Math_max_spread xs = foldl Math_max NInf xs"

definition Math_min_spread :: "jsnum list \<Rightarrow> jsnum" where
  "Math_min_spread xs = foldl Math_min PInf xs"

section \<open>Arrays and number-keyed objects\<close>

text \<open>
  \<^verbatim>\<open>xs.slice(start, end)\<close> with JavaScript's treatment of negative and too large
  positions; \<^verbatim>\<open>xs.slice(start)\<close> ends at the length.
\<close>

definition slice_pos :: "nat \<Rightarrow> int \<Rightarrow> nat" where
  "slice_pos n p = nat (if p < 0 then max (int n + p) 0 else min p (int n))"

definition slice :: "int \<Rightarrow> int \<Rightarrow> 'a list \<Rightarrow> 'a list" where
  "slice start end xs =
     (let s = slice_pos (length xs) start; e = slice_pos (length xs) end
      in take (e - s) (drop s xs))"

definition slice_from :: "int \<Rightarrow> 'a list \<Rightarrow> 'a list" where
  "slice_from start xs = slice start (int (length xs)) xs"

text \<open>
  \<^verbatim>\<open>xs.splice(start, 1)\<close>: the removed elements (none when \<^verbatim>\<open>start\<close> is at or past the
  end) and the array that is left.
\<close>

definition splice1 :: "int \<Rightarrow> 'a list \<Rightarrow> 'a list \<times> 'a list" where
  "splice1 start xs =
     (let s = slice_pos (length xs) start
      in (take 1 (drop s xs), take s xs @ drop (Suc s) xs))"

text \<open>\<^verbatim>\<open>xs[i]\<close> for a computed index: \<^verbatim>\<open>undefined\<close> (here \<open>None\<close>) out of range.\<close>

definition at_index :: "'a list \<Rightarrow> int \<Rightarrow> 'a option" where
  "at_index xs i = (if 0 \<le> i \<and> i < int (length xs) then Some (xs ! nat i) else None)"

text \<open>
  A \<^verbatim>\<open>Record<number, T>\<close> whose keys are ball numbers is an association list kept in
  ascending key order, the order in which \<^verbatim>\<open>Object.entries\<close> and \<^verbatim>\<open>Object.values\<close>
  enumerate integer keys. \<open>add_weight\<close> is \<^verbatim>\<open>t[num] = (t[num] || 0) + weight\<close>.
\<close>

fun add_weight :: "nat \<Rightarrow> real \<Rightarrow> (nat \<times> real) list \<Rightarrow> (nat \<times> real) list" where
  "add_weight num weight [] = [(num, weight)]"
| "add_weight num weight ((k, v) # t) =
     (if num = k then (k, v + weight) # t
      else if num < k then (num, weight) # (k, v) # t
      else (k, v) # add_weight num weight t)"

text \<open>\<^verbatim>\<open>t[num] || 0\<close>, and \<^verbatim>\<open>t[num]\<close> used as a number (\<^verbatim>\<open>undefined\<close> acts as \<^verbatim>\<open>NaN\<close>).\<close>

definition or_zero :: "(nat \<times> real) list \<Rightarrow> nat \<Rightarrow> real" where
  "or_zero t num = (case map_of t num of None \<Rightarrow> 0 | Some v \<Rightarrow> v)"

definition as_number :: "(nat \<times> real) list \<Rightarrow> nat \<Rightarrow> jsnum" where
  "as_number t num = (case map_of t num of None \<Rightarrow> NaN | Some v \<Rightarrow> Fin v)"

text \<open>
  \<^verbatim>\<open>xs.sort(cmp)\<close> for a comparator that returns a number: an element moves behind
  another one only when the comparator is positive (\<^verbatim>\<open>NaN\<close> counts as 0), and the sort is
  stable, as ECMAScript requires. For a consistent comparator this is the sorted array.
  The compared values are exact, so values that are equal as reals stay tied even where
  rounding in doubles would order them.
\<close>

fun insert_cmp :: "('a \<Rightarrow> 'a \<Rightarrow> jsnum) \<Rightarrow> 'a \<Rightarrow> 'a list \<Rightarrow> 'a list" where
  "insert_cmp cmp x [] = [x]"
| "insert_cmp cmp x (y # ys) =
     (if jgt (cmp x y) (Fin 0) then y # insert_cmp cmp x ys else x # y # ys)"

definition sort_cmp :: "('a \<Rightarrow> 'a \<Rightarrow> jsnum) \<Rightarrow> 'a list \<Rightarrow> 'a list" where
  "sort_cmp cmp xs = foldr (insert_cmp cmp) xs []"

text \<open>The comparator \<^verbatim>\<open>(a, b) => b[1] - a[1]\<close> on entries: descending by value.\<close>

definition by_value_desc :: "'k \<times> jsnum \<Rightarrow> 'k \<times> jsnum \<Rightarrow> jsnum" where
  "by_value_desc a b = jsub (snd b) (snd a)"

definition entries_num :: "(nat \<times> real) list \<Rightarrow> (nat \<times> jsnum) list" where
  "entries_num t = map (\<lambda>(k, v). (k, Fin v)) t"

section \<open>Data model\<close>

record LottoDraw =
  Date :: string
  B1 :: nat
  B2 :: nat
  B3 :: nat
  B4 :: nat
  B5 :: nat
  B6 :: nat
  BB :: nat

record PredictionWeights =
  frequency :: real
  recency :: real
  gaps :: real
  patterns :: real
  distribution :: real
  correlation :: real

text \<open>\<^verbatim>\<open>Partial<PredictionWeights>\<close>: a key that is absent is \<open>None\<close>.\<close>

record PartialWeights =
  p_frequency :: "real option"
  p_recency :: "real option"
  p_gaps :: "real option"
  p_patterns :: "real option"
  p_distribution :: "real option"
  p_correlation :: "real option"

record engine =
  draws :: "LottoDraw list"
  weights :: PredictionWeights

definition or_default :: "'a option \<Rightarrow> 'a \<Rightarrow> 'a" where
  "or_default v d = (case v of None \<Rightarrow> d | Some x \<Rightarrow> x)"

definition new_engine :: "LottoDraw list \<Rightarrow> PartialWeights \<Rightarrow> engine" where
  "new_engine ds customWeights =
     \<lparr> draws = ds,
       weights = \<lparr> frequency = or_default (p_frequency customWeights) (25 / 100),
                   recency = or_default (p_recency customWeights) (20 / 100),
                   gaps = or_default (p_gaps customWeights) (20 / 100),
                   patterns = or_default (p_patterns customWeights) (15 / 100),
                   distribution = or_default (p_distribution customWeights) (10 / 100),
                   correlation = or_default (p_correlation customWeights) (10 / 100) \<rparr> \<rparr>"

definition no_custom :: PartialWeights where
  "no_custom = \<lparr> p_frequency = None, p_recency = None, p_gaps = None,
                 p_patterns = None, p_distribution = None, p_correlation = None \<rparr>"

record SumDistribution =
  mean :: jsnum
  stdDev :: jsnum
  range_min :: jsnum
  range_max :: jsnum

record RangeDistribution =
  r1_10 :: real
  r11_20 :: real
  r21_30 :: real
  r31_40 :: real
  r41_49 :: real

record Trends =
  recentTrend :: jsnum
  volatility :: jsnum

record SumRange =
  range_lo :: jsnum
  range_hi :: jsnum
  target :: jsnum

record analysis =
  allTimeFrequency :: "(nat \<times> real) list"
  recentFrequency :: "(nat \<times> real) list"
  gapTable :: "(nat \<times> int list) list"
  expectedGaps :: "(nat \<times> real) list"
  consecutivePatterns :: "(nat \<times> jsnum) list"
  positionPatterns :: "(string \<times> jsnum) list"
  sumDistribution :: SumDistribution
  rangeDistribution :: RangeDistribution
  trends :: Trends
  cycles :: "nat list"
  hotNumbers :: "nat list"
  coldNumbers :: "nat list"
  dueNumbers :: "nat list"
  avoidNumbers :: "nat list"
  optimalSumRange :: SumRange
  detectedPatterns :: "string list"

text \<open>
  The sentences of \<^verbatim>\<open>generateReasoning\<close> are template strings; a sentence is modelled by
  its template and the values interpolated into it.
\<close>

datatype reasoning_line =
    WeightingPolicy
  | DueSelected nat "nat list"
  | HotIncluded nat "nat list"
  | ColdBalanced nat "nat list"
  | TotalSum nat jsnum jsnum
  | PatternsConsidered "string list"
  | NumberDistribution nat nat nat

record StatisticalBasis =
  sb_hotNumbers :: "nat list"
  sb_coldNumbers :: "nat list"
  sb_dueNumbers :: "nat list"
  sb_avoidNumbers :: "nat list"
  sb_sumRange :: SumRange
  sb_patterns :: "string list"

text \<open>
  \<open>bonusBall\<close> and the elements of an alternative set are array reads at a computed
  index, \<open>None\<close> when the read is \<^verbatim>\<open>undefined\<close>.
\<close>

record PredictionResult =
  suggestedNumbers :: "nat list"
  bonusBall :: "nat option"
  confidence :: jsnum
  reasoning :: "reasoning_line list"
  statisticalBasis :: StatisticalBasis
  alternativeSets :: "nat option list list"

section \<open>Frequency and gap analysis\<close>

definition mainNumbers :: "LottoDraw \<Rightarrow> nat list" where
  "mainNumbers draw = [B1 draw, B2 draw, B3 draw, B4 draw, B5 draw, B6 draw]"

definition drawSum :: "LottoDraw \<Rightarrow> nat" where
  "drawSum draw = B1 draw + B2 draw + B3 draw + B4 draw + B5 draw + B6 draw"

text \<open>\<^verbatim>\<open>index >= this.draws.length - 100\<close>\<close>

definition isRecent :: "engine \<Rightarrow> nat \<Rightarrow> bool" where
  "isRecent this index = (int (length (draws this)) - 100 \<le> int index)"

definition calculateAllTimeFrequency :: "engine \<Rightarrow> (nat \<times> real) list" where
  "calculateAllTimeFrequency this =
     foldl (\<lambda>frequency (index, draw).
        let weight = (if isRecent this index then 2 else 1)
        in foldl (\<lambda>f num. add_weight num weight f) frequency (mainNumbers draw))
       [] (enumerate 0 (draws this))"

definition calculateRecentFrequency :: "engine \<Rightarrow> nat \<Rightarrow> (nat \<times> real) list" where
  "calculateRecentFrequency this drawCount =
     (let recentDraws = slice_from (- int drawCount) (draws this)
      in foldl (\<lambda>frequency draw.
           foldl (\<lambda>f num. add_weight num 1 f) frequency (mainNumbers draw)) [] recentDraws)"

text \<open>
  The body of the loop of \<^verbatim>\<open>calculateGaps\<close> for one number: the state of the inner
  \<^verbatim>\<open>forEach\<close> is the gap array and \<^verbatim>\<open>lastSeen\<close>.
\<close>

definition gaps_step :: "engine \<Rightarrow> nat \<Rightarrow> int list \<times> int \<Rightarrow> nat \<times> LottoDraw \<Rightarrow> int list \<times> int" where
  "gaps_step this num st p =
     (case st of (gs, lastSeen) \<Rightarrow> case p of (index, draw) \<Rightarrow>
        if num \<in> set (mainNumbers draw) then
          ((if lastSeen \<noteq> - 1 then
              (let gapSize = int index - lastSeen
               in if isRecent this index then gs @ [gapSize, gapSize] else gs @ [gapSize])
            else gs), int index)
        else (gs, lastSeen))"

definition gaps_of :: "engine \<Rightarrow> nat \<Rightarrow> int list" where
  "gaps_of this num =
     (case foldl (gaps_step this num) ([], - 1) (enumerate 0 (draws this)) of
        (gs, lastSeen) \<Rightarrow>
          if lastSeen \<noteq> - 1 then
            (let currentGap = int (length (draws this)) - 1 - lastSeen
             in if int (length (draws this)) - 100 \<le> lastSeen
                then gs @ [currentGap, currentGap] else gs @ [currentGap])
          else gs)"

definition calculateGaps :: "engine \<Rightarrow> (nat \<times> int list) list" where
  "calculateGaps this = map (\<lambda>num. (num, gaps_of this num)) [1..<50]"

definition calculateTotalWeightedDraws :: "engine \<Rightarrow> real" where
  "calculateTotalWeightedDraws this =
     (let totalDraws = length (draws this)
      in if totalDraws \<le> 100 then real totalDraws * 2
         else (real totalDraws - 100) + (100 * 2))"

definition calculateExpectedGaps :: "engine \<Rightarrow> (nat \<times> real) list" where
  "calculateExpectedGaps this =
     (let totalWeightedDraws = calculateTotalWeightedDraws this;
          frequency = calculateAllTimeFrequency this
      in map (\<lambda>num. let weightedFreq = or_zero frequency num
                    in (num, if 0 < weightedFreq then totalWeightedDraws / weightedFreq
                             else totalWeightedDraws)) [1..<50])"

text \<open>\<^verbatim>\<open>gapArray[gapArray.length - 1] || 0\<close>\<close>

definition last_or_zero :: "int list \<Rightarrow> int" where
  "last_or_zero gapArray = (if gapArray = [] then 0 else last gapArray)"

section \<open>Pattern and distribution analysis\<close>

text \<open>
  The number of adjacent pairs of the sorted main numbers that differ by exactly 1
  (the \<^verbatim>\<open>for\<close> loop over \<^verbatim>\<open>i < numbers.length - 1\<close>).
\<close>

definition consecutive_in :: "LottoDraw \<Rightarrow> nat" where
  "consecutive_in draw =
     (let numbers = sort (mainNumbers draw)
      in length (filter (\<lambda>i. numbers ! (i + 1) = numbers ! i + 1) [0..<length numbers - 1]))"

definition analyzeConsecutivePatterns :: "engine \<Rightarrow> (nat \<times> jsnum) list" where
  "analyzeConsecutivePatterns this =
     (let consecutiveCount = map consecutive_in (draws this)
      in map (\<lambda>count. (count,
                jdiv (Fin (real (length (filter (\<lambda>c. c = count) consecutiveCount))))
                     (Fin (real (length (draws this))))))
           [0, 1, 2, 3, 4, 5])"

text \<open>Mean and variance of a list of numbers, as the two \<^verbatim>\<open>reduce\<close> calls compute them.\<close>

definition mean_of :: "real list \<Rightarrow> jsnum" where
  "mean_of values = jdiv (Fin (foldl (+) 0 values)) (Fin (real (length values)))"

definition variance_of :: "real list \<Rightarrow> jsnum \<Rightarrow> jsnum" where
  "variance_of values m =
     jdiv (foldl (\<lambda>acc val. jadd acc (Math_pow2 (jsub (Fin val) m))) (Fin 0) values)
          (Fin (real (length values)))"

definition analyzePositionPatterns :: "engine \<Rightarrow> (string \<times> jsnum) list" where
  "analyzePositionPatterns this =
     concat (map (\<lambda>(pos, field).
        let values = map (\<lambda>draw. real (field draw)) (draws this);
            m = mean_of values;
            variance = variance_of values m
        in [(pos @ ''_mean'', m), (pos @ ''_variance'', variance)])
       [(''B1'', B1), (''B2'', B2), (''B3'', B3), (''B4'', B4), (''B5'', B5), (''B6'', B6)])"

definition weightedSums :: "engine \<Rightarrow> real list" where
  "weightedSums this =
     concat (map (\<lambda>(index, draw).
        replicate (if isRecent this index then 2 else 1) (real (drawSum draw)))
       (enumerate 0 (draws this)))"

definition analyzeSumDistribution :: "engine \<Rightarrow> SumDistribution" where
  "analyzeSumDistribution this =
     (let ws = weightedSums this;
          m = mean_of ws;
          variance = variance_of ws m
      in \<lparr> mean = m, stdDev = Math_sqrt variance,
           range_min = Math_min_spread (map Fin ws),
           range_max = Math_max_spread (map Fin ws) \<rparr>)"

definition range_step :: "real \<Rightarrow> RangeDistribution \<Rightarrow> nat \<Rightarrow> RangeDistribution" where
  "range_step weight ranges num =
     (if num \<le> 10 then ranges\<lparr>r1_10 := r1_10 ranges + weight\<rparr>
      else if num \<le> 20 then ranges\<lparr>r11_20 := r11_20 ranges + weight\<rparr>
      else if num \<le> 30 then ranges\<lparr>r21_30 := r21_30 ranges + weight\<rparr>
      else if num \<le> 40 then ranges\<lparr>r31_40 := r31_40 ranges + weight\<rparr>
      else ranges\<lparr>r41_49 := r41_49 ranges + weight\<rparr>)"

definition analyzeRangeDistribution :: "engine \<Rightarrow> RangeDistribution" where
  "analyzeRangeDistribution this =
     foldl (\<lambda>ranges (index, draw).
        foldl (range_step (if isRecent this index then 2 else 1)) ranges (mainNumbers draw))
       \<lparr> r1_10 = 0, r11_20 = 0, r21_30 = 0, r31_40 = 0, r41_49 = 0 \<rparr>
       (enumerate 0 (draws this))"

definition analyzeTrends :: "engine \<Rightarrow> Trends" where
  "analyzeTrends this =
     (let recentSums = map (\<lambda>draw. real (drawSum draw)) (slice_from (- 10) (draws this));
          olderSums = map (\<lambda>draw. real (drawSum draw)) (slice (- 20) (- 10) (draws this));
          recentAvg = mean_of recentSums;
          olderAvg = mean_of olderSums
      in \<lparr> recentTrend = jsub recentAvg olderAvg,
           volatility = Math_sqrt (variance_of recentSums recentAvg) \<rparr>)"

text \<open>
  The inner loop of \<^verbatim>\<open>detectCycles\<close>, from offset \<open>i\<close>: it runs while
  \<^verbatim>\<open>i < cycleLength && i + cycleLength < sums.length\<close> and leaves with \<^verbatim>\<open>isPattern = false\<close>
  at the first pair of sums more than 10 apart (\<open>drawSums\<close> is the array \<^verbatim>\<open>sums\<close>).
\<close>

function isPattern_from :: "nat list \<Rightarrow> nat \<Rightarrow> nat \<Rightarrow> bool" where
  "isPattern_from drawSums cycleLength i =
     (if i < cycleLength \<and> i + cycleLength < length drawSums then
        (if 10 < abs (int (drawSums ! i) - int (drawSums ! (i + cycleLength))) then False
         else isPattern_from drawSums cycleLength (i + 1))
      else True)"
  by pat_completeness auto
termination
  by (relation "measure (\<lambda>(drawSums, cycleLength, i). cycleLength - i)") auto

declare isPattern_from.simps [simp del]

text \<open>The array \<^verbatim>\<open>sums\<close> of \<^verbatim>\<open>detectCycles\<close>: the sums of the last 30 draws.\<close>

definition last30Sums :: "engine \<Rightarrow> nat list" where
  "last30Sums this = map drawSum (slice_from (- 30) (draws this))"

definition detectCycles :: "engine \<Rightarrow> nat list" where
  "detectCycles this =
     filter (\<lambda>cycleLength. isPattern_from (last30Sums this) cycleLength 0) [3..<11]"

section \<open>Hot, cold, due and avoid numbers\<close>

definition identifyHotNumbers :: "engine \<Rightarrow> nat list" where
  "identifyHotNumbers this =
     (let recentFreq = calculateRecentFrequency this 15
      in map fst (slice 0 12 (sort_cmp by_value_desc (entries_num recentFreq))))"

text \<open>\<^verbatim>\<open>!recentFreq[num]\<close>: the key is absent or its value is 0.\<close>

definition identifyColdNumbers :: "engine \<Rightarrow> nat list" where
  "identifyColdNumbers this =
     (let recentFreq = calculateRecentFrequency this 20;
          allNumbers = map (\<lambda>i. i + 1) [0..<49]
      in slice 0 15 (filter (\<lambda>num. case map_of recentFreq num of None \<Rightarrow> True | Some v \<Rightarrow> v = 0)
                       allNumbers))"

text \<open>The ratio \<^verbatim>\<open>gap / expected\<close> of an entry of the gap table, used to rank due numbers.\<close>

definition due_ratio :: "(nat \<times> real) list \<Rightarrow> nat \<times> int list \<Rightarrow> jsnum" where
  "due_ratio expected e = jdiv (Fin (real_of_int (last_or_zero (snd e)))) (as_number expected (fst e))"

definition identifyDueNumbers :: "engine \<Rightarrow> nat list" where
  "identifyDueNumbers this =
     (let gapTbl = calculateGaps this;
          expected = calculateExpectedGaps this
      in map fst (slice 0 10
           (sort_cmp (\<lambda>a b. jsub (due_ratio expected b) (due_ratio expected a))
              (filter (\<lambda>(num, gapArray).
                   let currentGap = last_or_zero gapArray
                   in jgt (Fin (real_of_int currentGap)) (jmul (as_number expected num) (Fin (15 / 10))))
                 gapTbl))))"

definition identifyAvoidNumbers :: "engine \<Rightarrow> nat list" where
  "identifyAvoidNumbers this =
     (let recentFreq = calculateRecentFrequency this 10
      in map fst (slice 0 8
           (sort_cmp by_value_desc (filter (\<lambda>(num, freq). jge freq (Fin 3)) (entries_num recentFreq)))))"

definition calculateOptimalSumRange :: "engine \<Rightarrow> SumRange" where
  "calculateOptimalSumRange this =
     (let distribution = analyzeSumDistribution this
      in \<lparr> range_lo = Math_round (jsub (mean distribution) (stdDev distribution)),
           range_hi = Math_round (jadd (mean distribution) (stdDev distribution)),
           target = Math_round (mean distribution) \<rparr>)"

definition detectPatterns :: "engine \<Rightarrow> string list" where
  "detectPatterns this =
     (let recentDraws = slice_from (- 10) (draws this);
          highLowBalance = map (\<lambda>draw. real (length (filter (\<lambda>n. 24 < n) (mainNumbers draw)))) recentDraws;
          avgHighs = mean_of highLowBalance;
          p1 = (if jgt avgHighs (Fin 4) then [''Recent bias toward high numbers''] else []);
          p2 = (if jlt avgHighs (Fin 2) then [''Recent bias toward low numbers''] else []);
          recentConsecutive = find (\<lambda>p. 2 \<le> fst p) (analyzeConsecutivePatterns this);
          p3 = (case recentConsecutive of
                  None \<Rightarrow> []
                | Some p \<Rightarrow> if jgt (snd p) (Fin (3 / 10))
                            then [''Higher than normal consecutive number frequency''] else [])
      in p1 @ p2 @ p3)"

definition performCompleteAnalysis :: "engine \<Rightarrow> analysis" where
  "performCompleteAnalysis this =
     \<lparr> allTimeFrequency = calculateAllTimeFrequency this,
       recentFrequency = calculateRecentFrequency this 20,
       gapTable = calculateGaps this,
       expectedGaps = calculateExpectedGaps this,
       consecutivePatterns = analyzeConsecutivePatterns this,
       positionPatterns = analyzePositionPatterns this,
       sumDistribution = analyzeSumDistribution this,
       rangeDistribution = analyzeRangeDistribution this,
       trends = analyzeTrends this,
       cycles = detectCycles this,
       hotNumbers = identifyHotNumbers this,
       coldNumbers = identifyColdNumbers this,
       dueNumbers = identifyDueNumbers this,
       avoidNumbers = identifyAvoidNumbers this,
       optimalSumRange = calculateOptimalSumRange this,
       detectedPatterns = detectPatterns this \<rparr>"

section \<open>Number scoring\<close>

text \<open>The body of the loop of \<^verbatim>\<open>calculateNumberScores\<close> for one number.\<close>

definition score_of :: "engine \<Rightarrow> analysis \<Rightarrow> nat \<Rightarrow> jsnum" where
  "score_of this a num =
     (let allTimeFreq = or_zero (allTimeFrequency a) num;
          maxFreq = Math_max_spread (map (\<lambda>e. Fin (snd e)) (allTimeFrequency a));
          score1 = jadd (Fin 0)
                     (jmul (jmul (jdiv (Fin allTimeFreq) maxFreq) (Fin (frequency (weights this)))) (Fin 100));
          recentFreq = or_zero (recentFrequency a) num;
          score2 = jadd score1 (Fin (min (recentFreq * 25) 100 * recency (weights this)));
          currentGap = (case map_of (gapTable a) num of
                          None \<Rightarrow> 0 | Some gapArray \<Rightarrow> last_or_zero gapArray);
          expectedGap = as_number (expectedGaps a) num;
          gapRatio = (if jgt expectedGap (Fin 0) then jdiv (Fin (real_of_int currentGap)) expectedGap
                      else Fin 0);
          score3 = jadd score2
                     (jmul (Math_min (jmul gapRatio (Fin 50)) (Fin 100)) (Fin (gaps (weights this))));
          score4 = (if num \<in> set (avoidNumbers a) then jmul score3 (Fin (3 / 10)) else score3);
          score5 = (if num \<in> set (dueNumbers a) then jmul score4 (Fin (15 / 10)) else score4);
          score6 = (if num \<in> set (hotNumbers a) then jmul score5 (Fin (12 / 10)) else score5)
      in score6)"

definition calculateNumberScores :: "engine \<Rightarrow> analysis \<Rightarrow> (nat \<times> jsnum) list" where
  "calculateNumberScores this a = map (\<lambda>num. (num, score_of this a num)) [1..<50]"

section \<open>Constrained selection\<close>

text \<open>
  \<^verbatim>\<open>Math.random()\<close> is a source \<open>rnd\<close> of numbers read at a position that every call
  advances; the functions that call it take the position and return the next one.

  The innermost loop of \<^verbatim>\<open>selectOptimalNumbers\<close> walks the weights and the available
  candidates together: \<^verbatim>\<open>random -= weights[j]; if (random <= 0) { push; break }\<close>.
  When the loop ends without a push the result is \<open>None\<close>. Over the reals a random
  value below 1 always leads to a push; in doubles a value within rounding of 1 can leave
  a positive residual after the last weight, which is the case \<open>None\<close>.
\<close>

fun weighted_walk :: "real \<Rightarrow> (real \<times> nat) list \<Rightarrow> nat option" where
  "weighted_walk random [] = None"
| "weighted_walk random ((w, c) # rest) =
     (if random - w \<le> 0 then Some c else weighted_walk (random - w) rest)"

text \<open>One round \<open>i\<close> of the \<^verbatim>\<open>for\<close> loop, given the value \<open>r\<close> of \<^verbatim>\<open>Math.random()\<close>.\<close>

definition pick_one :: "nat list \<Rightarrow> nat list \<Rightarrow> real \<Rightarrow> nat list" where
  "pick_one candidates selected r =
     (let availableCandidates = filter (\<lambda>num. num \<notin> set selected) candidates;
          ws = map (\<lambda>index. (8 / 10) ^ index) [0..<length availableCandidates];
          totalWeight = foldl (+) 0 ws;
          random = r * totalWeight
      in case weighted_walk random (zip ws availableCandidates) of
           None \<Rightarrow> selected
         | Some c \<Rightarrow> selected @ [c])"

fun pick_rounds :: "nat list \<Rightarrow> (nat \<Rightarrow> real) \<Rightarrow> nat \<Rightarrow> nat \<Rightarrow> nat list \<Rightarrow> nat list" where
  "pick_rounds candidates rnd k 0 selected = selected"
| "pick_rounds candidates rnd k (Suc n) selected =
     pick_rounds candidates rnd (Suc k) n (pick_one candidates selected (rnd k))"

text \<open>
  The \<^verbatim>\<open>while (selected.length < 6 && attempts < maxAttempts)\<close> loop. Its state is
  \<open>selected\<close>, \<open>attempts\<close> and the position \<open>k\<close> in the random source; the result is
  \<open>selected\<close> when the loop is left, by its condition or by the \<^verbatim>\<open>break\<close>.
\<close>

function select_loop ::
  "nat list \<Rightarrow> SumRange \<Rightarrow> (nat \<Rightarrow> real) \<Rightarrow> nat \<Rightarrow> nat list \<Rightarrow> nat \<Rightarrow> nat list \<times> nat" where
  "select_loop candidates rng rnd k selected attempts =
     (if length selected < 6 \<and> attempts < 1000 then
        (let selected' = pick_rounds candidates rnd k 6 [];
             currentSum = Fin (real (foldl (+) 0 selected'))
         in if jge currentSum (range_lo rng) \<and> jle currentSum (range_hi rng)
            then (selected', k + 6)
            else select_loop candidates rng rnd (k + 6) selected' (attempts + 1))
      else (selected, k))"
  by pat_completeness auto
termination
  by (relation "measure (\<lambda>(candidates, rng, rnd, k, selected, attempts). 1000 - attempts)") auto

declare select_loop.simps [simp del]

definition ranked :: "(nat \<times> jsnum) list \<Rightarrow> nat list" where
  "ranked scores = map fst (sort_cmp by_value_desc scores)"

definition selectOptimalNumbers ::
  "(nat \<times> jsnum) list \<Rightarrow> analysis \<Rightarrow> (nat \<Rightarrow> real) \<Rightarrow> nat \<Rightarrow> nat list \<times> nat" where
  "selectOptimalNumbers scores a rnd k =
     (let candidates = ranked scores
      in case select_loop candidates (optimalSumRange a) rnd k [] 0 of
           (selected, k') \<Rightarrow>
             (if length selected \<noteq> 6 then slice 0 6 candidates else selected, k'))"

section \<open>Bonus ball, confidence, reasoning\<close>

definition bonusFreq :: "engine \<Rightarrow> (nat \<times> real) list" where
  "bonusFreq this =
     foldl (\<lambda>f (index, draw). add_weight (BB draw) (if isRecent this index then 2 else 1) f)
       [] (enumerate 0 (draws this))"

definition predictBonusBall :: "engine \<Rightarrow> (nat \<Rightarrow> real) \<Rightarrow> nat \<Rightarrow> nat option \<times> nat" where
  "predictBonusBall this rnd k =
     (let maxFreq = Math_max_spread (map (\<lambda>e. Fin (snd e)) (bonusFreq this));
          bonusScores = map (\<lambda>num. (num, jmul (jdiv (Fin (or_zero (bonusFreq this) num)) maxFreq) (Fin 100)))
                          [1..<50];
          sortedBonus = ranked bonusScores;
          topBonus = slice 0 10 sortedBonus;
          randomIndex = \<lfloor>rnd k * real (min (length topBonus) 5)\<rfloor>
      in (at_index topBonus randomIndex, Suc k))"

definition count_in :: "nat list \<Rightarrow> nat list \<Rightarrow> nat" where
  "count_in selectedNumbers ns = length (filter (\<lambda>n. n \<in> set ns) selectedNumbers)"

definition calculateConfidence :: "analysis \<Rightarrow> nat list \<Rightarrow> jsnum" where
  "calculateConfidence a selectedNumbers =
     (let dueCount = count_in selectedNumbers (dueNumbers a);
          hotCount = count_in selectedNumbers (hotNumbers a);
          coldCount = count_in selectedNumbers (coldNumbers a);
          avoidCount = count_in selectedNumbers (avoidNumbers a);
          confidence4 = 50 + real dueCount * 8 + real hotCount * 5 + real coldCount * 3
                          - real avoidCount * 15;
          sum = foldl (+) 0 selectedNumbers;
          sumAlignment = Math_abs (jsub (Fin (real sum)) (target (optimalSumRange a)));
          confidence5 = jsub (Fin confidence4) (jmul sumAlignment (Fin (5 / 10)))
      in Math_max (Fin 10) (Math_min (Fin 95) confidence5))"

definition generateReasoning :: "analysis \<Rightarrow> nat list \<Rightarrow> reasoning_line list" where
  "generateReasoning a selectedNumbers =
     (let due = filter (\<lambda>n. n \<in> set (dueNumbers a)) selectedNumbers;
          hot = filter (\<lambda>n. n \<in> set (hotNumbers a)) selectedNumbers;
          cold = filter (\<lambda>n. n \<in> set (coldNumbers a)) selectedNumbers;
          sum = foldl (+) 0 selectedNumbers;
          low = length (filter (\<lambda>n. n \<le> 16) selectedNumbers);
          mid = length (filter (\<lambda>n. \<not> n \<le> 16 \<and> n \<le> 33) selectedNumbers);
          high = length (filter (\<lambda>n. \<not> n \<le> 16 \<and> \<not> n \<le> 33) selectedNumbers)
      in [WeightingPolicy]
         @ (if 0 < length due then [DueSelected (length due) due] else [])
         @ (if 0 < length hot then [HotIncluded (length hot) hot] else [])
         @ (if 0 < length cold then [ColdBalanced (length cold) cold] else [])
         @ [TotalSum sum (range_lo (optimalSumRange a)) (range_hi (optimalSumRange a))]
         @ (if 0 < length (detectedPatterns a) then [PatternsConsidered (detectedPatterns a)] else [])
         @ [NumberDistribution low mid high])"

section \<open>Alternative sets\<close>

text \<open>
  The \<^verbatim>\<open>while (selected.length < 6 && candidatePool.length > 0)\<close> loop: every round
  pushes \<^verbatim>\<open>candidatePool.splice(randomIndex, 1)[0]\<close>, which is \<^verbatim>\<open>undefined\<close> when the
  splice removed nothing.
\<close>

function alt_loop ::
  "(nat \<Rightarrow> real) \<Rightarrow> nat \<Rightarrow> nat option list \<Rightarrow> nat list \<Rightarrow> nat option list \<times> nat" where
  "alt_loop rnd k selected candidatePool =
     (if length selected < 6 \<and> 0 < length candidatePool then
        (let randomIndex = \<lfloor>rnd k * real (length candidatePool)\<rfloor>
         in case splice1 randomIndex candidatePool of
              (removed, pool') \<Rightarrow>
                alt_loop rnd (Suc k)
                  (selected @ [case removed of [] \<Rightarrow> None | x # xs \<Rightarrow> Some x]) pool')
      else (selected, k))"
  by pat_completeness auto
termination
  by (relation "measure (\<lambda>(rnd, k, selected, candidatePool). 6 - length selected)") auto

declare alt_loop.simps [simp del]

text \<open>
  \<^verbatim>\<open>selected.sort((a, b) => a - b)\<close>: the numbers ascending, every \<^verbatim>\<open>undefined\<close> behind
  them.
\<close>

definition sort_numbers :: "nat option list \<Rightarrow> nat option list" where
  "sort_numbers selected =
     map Some (sort (List.map_filter (\<lambda>x. x) selected)) @ filter (\<lambda>x. x = None) selected"

definition candidatePool_of :: "nat \<Rightarrow> nat list \<Rightarrow> analysis \<Rightarrow> nat list" where
  "candidatePool_of set_no topCandidates a =
     (if set_no = 0 then
        filter (\<lambda>n. case map_of (allTimeFrequency a) n of None \<Rightarrow> False | Some v \<Rightarrow> 10 < v)
          topCandidates
      else if set_no = 1 then slice 0 15 (dueNumbers a @ coldNumbers a)
      else topCandidates)"

definition alt_step ::
  "nat list \<Rightarrow> analysis \<Rightarrow> (nat \<Rightarrow> real) \<Rightarrow> nat option list list \<times> nat \<Rightarrow> nat
     \<Rightarrow> nat option list list \<times> nat" where
  "alt_step topCandidates a rnd st set_no =
     (case st of (alternatives, k) \<Rightarrow>
        case alt_loop rnd k [] (candidatePool_of set_no topCandidates a) of
          (selected, k') \<Rightarrow>
            (if length selected = 6 then alternatives @ [sort_numbers selected] else alternatives,
             k'))"

definition generateAlternativeSets ::
  "(nat \<times> jsnum) list \<Rightarrow> analysis \<Rightarrow> (nat \<Rightarrow> real) \<Rightarrow> nat \<Rightarrow> nat option list list \<times> nat" where
  "generateAlternativeSets scores a rnd k =
     (let topCandidates = slice 0 20 (ranked scores)
      in foldl (alt_step topCandidates a rnd) ([], k) [0, 1, 2])"

section \<open>The prediction\<close>

definition generatePrediction :: "engine \<Rightarrow> (nat \<Rightarrow> real) \<Rightarrow> PredictionResult" where
  "generatePrediction this rnd =
     (let a = performCompleteAnalysis this;
          scores = calculateNumberScores this a
      in case selectOptimalNumbers scores a rnd 0 of
           (suggested, k1) \<Rightarrow>
             case predictBonusBall this rnd k1 of
               (bonus, k2) \<Rightarrow>
                 \<lparr> suggestedNumbers = sort suggested,
                   bonusBall = bonus,
                   confidence = calculateConfidence a suggested,
                   reasoning = generateReasoning a suggested,
                   statisticalBasis =
                     \<lparr> sb_hotNumbers = hotNumbers a, sb_coldNumbers = coldNumbers a,
                       sb_dueNumbers = dueNumbers a, sb_avoidNumbers = avoidNumbers a,
                       sb_sumRange = optimalSumRange a, sb_patterns = detectedPatterns a \<rparr>,
                   alternativeSets = fst (generateAlternativeSets scores a rnd k2) \<rparr>)"

definition predictLottoNumbers :: "LottoDraw list \<Rightarrow> PartialWeights \<Rightarrow> (nat \<Rightarrow> real) \<Rightarrow> PredictionResult" where
  "predictLottoNumbers ds customWeights rnd = generatePrediction (new_engine ds customWeights) rnd"

text \<open>The contract of \<^verbatim>\<open>Math.random()\<close>: every value is at least 0 and below 1.\<close>

definition unit_source :: "(nat \<Rightarrow> real) \<Rightarrow> bool" where
  "unit_source rnd = (\<forall>k. 0 \<le> rnd k \<and> rnd k < 1)"

section \<open>Example histories\<close>

definition draw_low :: LottoDraw where
  "draw_low = \<lparr> Date = ''06/01/2024'', B1 = 1, B2 = 2, B3 = 3, B4 = 4, B5 = 5, B6 = 6, BB = 7 \<rparr>"

definition draw_high :: LottoDraw where
  "draw_high = \<lparr> Date = ''13/01/2024'', B1 = 44, B2 = 45, B3 = 46, B4 = 47, B5 = 48, B6 = 49, BB = 7 \<rparr>"

text \<open>Six draws of 1 to 6 followed by one draw of 44 to 49.\<close>

definition history7 :: "LottoDraw list" where
  "history7 = replicate 6 draw_low @ [draw_high]"

text \<open>
  Random sources: one that always yields 0, and one that yields 0.3 at position 5 and 0
  everywhere else.
\<close>

definition rnd_zero :: "nat \<Rightarrow> real" where
  "rnd_zero k = 0"

definition rnd_late :: "nat \<Rightarrow> real" where
  "rnd_late k = (if k = 5 then 3 / 10 else 0)"

text \<open>Custom weights that set only the three reserved components.\<close>

definition reserved_only :: PartialWeights where
  "reserved_only = no_custom \<lparr> p_patterns := Some 7, p_distribution := Some 0, p_correlation := Some 3 \<rparr>"

text \<open>The 49 numbers in ascending order.\<close>

definition all49 :: "nat list" where
  "all49 = [1..<50]"

text \<open>150 identical draws of 1 to 6 with bonus 7.\<close>

definition history150 :: "LottoDraw list" where
  "history150 = replicate 150 draw_low"

text \<open>
  Two draws of 1, 2, 3, 10, 11, 12 followed by twenty draws of 4 to 9: every draw has
  sum 39, and the numbers of the first two draws are absent from the last 20 draws.
\<close>

definition history22 :: "LottoDraw list" where
  "history22 =
     replicate 2 \<lparr> Date = ''06/01/2024'', B1 = 1, B2 = 2, B3 = 3, B4 = 10, B5 = 11, B6 = 12, BB = 7 \<rparr>
     @ replicate 20 \<lparr> Date = ''13/01/2024'', B1 = 4, B2 = 5, B3 = 6, B4 = 7, B5 = 8, B6 = 9, BB = 7 \<rparr>"

text \<open>A random source that yields 0.4 at position 14 and 0 everywhere else.\<close>

definition rnd_dup :: "nat \<Rightarrow> real" where
  "rnd_dup k = (if k = 14 then 4 / 10 else 0)"

section \<open>Auxiliary notions for the proofs\<close>

text \<open>The weights \<^verbatim>\<open>Math.pow(0.8, index)\<close> of \<open>n\<close> available candidates.\<close>

definition decay_weights :: "nat \<Rightarrow> real list" where
  "decay_weights n = map (\<lambda>index. (8 / 10) ^ index) [0..<n]"

text \<open>What every state of the selection satisfies: distinct numbers taken from the candidates.\<close>

definition good_pick :: "nat list \<Rightarrow> nat list \<Rightarrow> bool" where
  "good_pick candidates selected = (distinct selected \<and> set selected \<subseteq> set candidates)"

text \<open>
  The fields of the analysis that scoring and the alternative sets read, the other fields
  left empty: it evaluates without \<open>sqrt\<close>.
\<close>

definition scoring_view :: "engine \<Rightarrow> analysis" where
  "scoring_view this =
     \<lparr> allTimeFrequency = calculateAllTimeFrequency this,
       recentFrequency = calculateRecentFrequency this 20,
       gapTable = calculateGaps this,
       expectedGaps = calculateExpectedGaps this,
       consecutivePatterns = [],
       positionPatterns = [],
       sumDistribution = \<lparr> mean = NaN, stdDev = NaN, range_min = NaN, range_max = NaN \<rparr>,
       rangeDistribution = \<lparr> r1_10 = 0, r11_20 = 0, r21_30 = 0, r31_40 = 0, r41_49 = 0 \<rparr>,
       trends = \<lparr> recentTrend = NaN, volatility = NaN \<rparr>,
       cycles = [],
       hotNumbers = identifyHotNumbers this,
       coldNumbers = identifyColdNumbers this,
       dueNumbers = identifyDueNumbers this,
       avoidNumbers = identifyAvoidNumbers this,
       optimalSumRange = \<lparr> range_lo = NaN, range_hi = NaN, target = NaN \<rparr>,
       detectedPatterns = [] \<rparr>"

text \<open>A set of six defined numbers in ascending order.\<close>

definition sorted_six :: "nat option list \<Rightarrow> bool" where
  "sorted_six s = (length s = 6 \<and> (\<exists>ns. s = map Some ns \<and> sorted ns))"

text \<open>A finite number that is not negative; a frequency table whose values are positive.\<close>

definition nonneg :: "jsnum \<Rightarrow> bool" where
  "nonneg x = (\<exists>s. x = Fin s \<and> 0 \<le> s)"

definition positive_table :: "(nat \<times> real) list \<Rightarrow> bool" where
  "positive_table t = (\<forall>e \<in> set t. 0 < snd e)"

section \<open>Cycle detection\<close>

lemma isPattern_from_iff:
  "isPattern_from s L i \<longleftrightarrow>
     (\<forall>j. i \<le> j \<and> j < L \<and> j + L < length s \<longrightarrow> abs (int (s ! j) - int (s ! (j + L))) \<le> 10)"
proof (induction s L i rule: isPattern_from.induct)
  case (1 s L i)
  let ?ok = "\<lambda>j. abs (int (s ! j) - int (s ! (j + L))) \<le> 10"
  show ?case
  proof (cases "i < L \<and> i + L < length s")
    case False
    then have "isPattern_from s L i" by (subst isPattern_from.simps) auto
    moreover have "\<forall>j. i \<le> j \<and> j < L \<and> j + L < length s \<longrightarrow> ?ok j"
      using False by auto
    ultimately show ?thesis by blast
  next
    case True
    show ?thesis
    proof (cases "?ok i")
      case False
      then have "\<not> isPattern_from s L i" using True by (subst isPattern_from.simps) simp
      moreover have "\<not> (\<forall>j. i \<le> j \<and> j < L \<and> j + L < length s \<longrightarrow> ?ok j)"
      proof
        assume "\<forall>j. i \<le> j \<and> j < L \<and> j + L < length s \<longrightarrow> ?ok j"
        then have "?ok i" using True by blast
        with False show False by blast
      qed
      ultimately show ?thesis by blast
    next
      case near: True
      have step: "isPattern_from s L i = isPattern_from s L (i + 1)"
        using True near by (subst isPattern_from.simps) simp
      have ih: "isPattern_from s L (i + 1) \<longleftrightarrow>
                 (\<forall>j. i + 1 \<le> j \<and> j < L \<and> j + L < length s \<longrightarrow> ?ok j)"
        using "1.IH" True near by simp
      have "(\<forall>j. i + 1 \<le> j \<and> j < L \<and> j + L < length s \<longrightarrow> ?ok j) \<longleftrightarrow>
            (\<forall>j. i \<le> j \<and> j < L \<and> j + L < length s \<longrightarrow> ?ok j)"
      proof (intro iffI allI impI)
        fix j assume a: "\<forall>j. i + 1 \<le> j \<and> j < L \<and> j + L < length s \<longrightarrow> ?ok j"
          and b: "i \<le> j \<and> j < L \<and> j + L < length s"
        show "?ok j"
        proof (cases "j = i")
          case True then show ?thesis using near by simp
        next
          case False
          then have "i + 1 \<le> j \<and> j < L \<and> j + L < length s" using b by simp
          then show ?thesis using a by blast
        qed
      next
        fix j assume a: "\<forall>j. i \<le> j \<and> j < L \<and> j + L < length s \<longrightarrow> ?ok j"
          and b: "i + 1 \<le> j \<and> j < L \<and> j + L < length s"
        from b have "i \<le> j \<and> j < L \<and> j + L < length s" by simp
        then show "?ok j" using a by blast
      qed
      with step ih show ?thesis by simp
    qed
  qed
qed

text \<open>
  Claim C7, as amended. \<^verbatim>\<open>detectCycles\<close> reports a cycle length \<open>L\<close> exactly when
  \<open>L\<close> is one of 3..10 and, over the sums of the last 30 draws, the sum at offset \<open>i\<close> is
  within 10 of the sum at offset \<open>i + L\<close> for every offset \<open>i\<close> of the first period
  (\<open>i < L\<close>) for which \<open>i + L\<close> is still an index of the sums. Offsets \<open>i \<ge> L\<close> are not
  compared: the loop condition is \<^verbatim>\<open>i < cycleLength && i + cycleLength < sums.length\<close>.
\<close>

theorem detectCycles_first_period:
  "L \<in> set (detectCycles this) \<longleftrightarrow>
     3 \<le> L \<and> L \<le> 10 \<and>
     (\<forall>i. i < L \<and> i + L < length (last30Sums this) \<longrightarrow>
         abs (int (last30Sums this ! i) - int (last30Sums this ! (i + L))) \<le> 10)"
proof -
  have "L \<in> set (detectCycles this) \<longleftrightarrow> L \<in> {3..<11} \<and> isPattern_from (last30Sums this) L 0"
    unfolding detectCycles_def by (simp only: set_filter set_upt mem_Collect_eq)
  also have "\<dots> \<longleftrightarrow> 3 \<le> L \<and> L \<le> 10 \<and> isPattern_from (last30Sums this) L 0"
    by auto
  finally show ?thesis unfolding isPattern_from_iff by simp
qed

text \<open>
  On \<open>history7\<close> the sums are 21 six times and then 279: length 3 is reported (the first
  three sums agree with the next three), length 6 is not (sums 0 and 6 are 258 apart).
\<close>

theorem detectCycles_first_period_witness:
  "3 \<in> set (detectCycles (new_engine history7 no_custom)) \<and>
   6 \<notin> set (detectCycles (new_engine history7 no_custom))"
proof -
  let ?e = "new_engine history7 no_custom"
  have s: "last30Sums ?e = [21, 21, 21, 21, 21, 21, 279]"
    by code_simp
  have "\<forall>i. i < 3 \<and> i + 3 < length (last30Sums ?e) \<longrightarrow>
          abs (int (last30Sums ?e ! i) - int (last30Sums ?e ! (i + 3))) \<le> 10"
    unfolding s by (auto simp: nth_Cons' less_Suc_eq numeral_3_eq_3)
  then have a: "3 \<in> set (detectCycles ?e)"
    using detectCycles_first_period [of 3 ?e] by simp
  have "\<not> (\<forall>i. i < 6 \<and> i + 6 < length (last30Sums ?e) \<longrightarrow>
          abs (int (last30Sums ?e ! i) - int (last30Sums ?e ! (i + 6))) \<le> 10)"
    unfolding s by (auto intro!: exI[of _ 0])
  then have b: "6 \<notin> set (detectCycles ?e)"
    using detectCycles_first_period [of 6 ?e] by simp
  from a b show ?thesis by simp
qed

text \<open>
  Claim C7 as stated fails: on \<open>history7\<close> length 3 is reported although offset 3 is a
  valid offset (\<open>3 + 3 < 7\<close>) and the sums at offsets 3 and 6 are more than 10 apart.
\<close>

theorem detectCycles_all_offsets_counterexample:
  "3 \<in> set (detectCycles (new_engine history7 no_custom)) \<and>
   3 + 3 < length (last30Sums (new_engine history7 no_custom)) \<and>
   10 < abs (int (last30Sums (new_engine history7 no_custom) ! 3)
             - int (last30Sums (new_engine history7 no_custom) ! (3 + 3)))"
  by code_simp

section \<open>The reserved weights\<close>

lemmas analysis_defs =
  performCompleteAnalysis_def calculateAllTimeFrequency_def calculateRecentFrequency_def
  calculateGaps_def gaps_of_def gaps_step_def calculateExpectedGaps_def
  calculateTotalWeightedDraws_def analyzeConsecutivePatterns_def analyzePositionPatterns_def
  analyzeSumDistribution_def weightedSums_def analyzeRangeDistribution_def analyzeTrends_def
  detectCycles_def last30Sums_def identifyHotNumbers_def identifyColdNumbers_def
  identifyDueNumbers_def identifyAvoidNumbers_def calculateOptimalSumRange_def
  detectPatterns_def isRecent_def

lemma analysis_reads_draws_only:
  "performCompleteAnalysis \<lparr> draws = ds, weights = w1 \<rparr> =
   performCompleteAnalysis \<lparr> draws = ds, weights = w2 \<rparr>"
  unfolding analysis_defs engine.select_convs by (rule refl)

lemma score_reads_three_weights:
  assumes "frequency w1 = frequency w2" "recency w1 = recency w2" "gaps w1 = gaps w2"
  shows "score_of \<lparr> draws = ds, weights = w1 \<rparr> a num = score_of \<lparr> draws = ds, weights = w2 \<rparr> a num"
  unfolding score_of_def engine.select_convs assms by (rule refl)

lemma bonus_reads_draws_only:
  "predictBonusBall \<lparr> draws = ds, weights = w1 \<rparr> rnd k =
   predictBonusBall \<lparr> draws = ds, weights = w2 \<rparr> rnd k"
  unfolding predictBonusBall_def bonusFreq_def isRecent_def engine.select_convs by (rule refl)

text \<open>
  Claim C9. Two engines on the same draw history whose weights agree on \<open>frequency\<close>,
  \<open>recency\<close> and \<open>gaps\<close>, whatever their \<open>patterns\<close>, \<open>distribution\<close> and \<open>correlation\<close>
  components are, compute the same number scores and, on the same random source, the same
  \<open>PredictionResult\<close>: the three reserved components are accepted (the constructor and
  the engine are total) and have no effect.
\<close>

theorem reserved_weights_have_no_effect:
  assumes "frequency w1 = frequency w2" and "recency w1 = recency w2" and "gaps w1 = gaps w2"
  shows "calculateNumberScores \<lparr> draws = ds, weights = w1 \<rparr>
             (performCompleteAnalysis \<lparr> draws = ds, weights = w1 \<rparr>)
         = calculateNumberScores \<lparr> draws = ds, weights = w2 \<rparr>
             (performCompleteAnalysis \<lparr> draws = ds, weights = w2 \<rparr>)
       \<and> generatePrediction \<lparr> draws = ds, weights = w1 \<rparr> rnd
         = generatePrediction \<lparr> draws = ds, weights = w2 \<rparr> rnd"
proof -
  have a: "performCompleteAnalysis \<lparr> draws = ds, weights = w1 \<rparr> =
           performCompleteAnalysis \<lparr> draws = ds, weights = w2 \<rparr>"
    by (rule analysis_reads_draws_only)
  have s: "calculateNumberScores \<lparr> draws = ds, weights = w1 \<rparr> x
         = calculateNumberScores \<lparr> draws = ds, weights = w2 \<rparr> x" for x
    unfolding calculateNumberScores_def using score_reads_three_weights [OF assms] by simp
  show ?thesis
    unfolding generatePrediction_def a s bonus_reads_draws_only [of ds w1 _ _ w2] by simp
qed

text \<open>
  The default weights against custom weights that set the reserved components to 7, 0
  and 3, on the history of one draw.
\<close>

theorem reserved_weights_have_no_effect_witness:
  "frequency (weights (new_engine [draw_low] no_custom))
     = frequency (weights (new_engine [draw_low] reserved_only))
   \<and> recency (weights (new_engine [draw_low] no_custom))
     = recency (weights (new_engine [draw_low] reserved_only))
   \<and> gaps (weights (new_engine [draw_low] no_custom))
     = gaps (weights (new_engine [draw_low] reserved_only))
   \<and> patterns (weights (new_engine [draw_low] no_custom))
     \<noteq> patterns (weights (new_engine [draw_low] reserved_only))
   \<and> predictLottoNumbers [draw_low] no_custom rnd_zero = predictLottoNumbers [draw_low] reserved_only rnd_zero"
proof -
  let ?w1 = "weights (new_engine [draw_low] no_custom)"
  let ?w2 = "weights (new_engine [draw_low] reserved_only)"
  have f: "frequency ?w1 = frequency ?w2" and r: "recency ?w1 = recency ?w2"
    and g: "gaps ?w1 = gaps ?w2" and p: "patterns ?w1 \<noteq> patterns ?w2"
    by (simp_all add: new_engine_def no_custom_def reserved_only_def or_default_def)
  have e1: "new_engine [draw_low] no_custom = \<lparr> draws = [draw_low], weights = ?w1 \<rparr>"
    and e2: "new_engine [draw_low] reserved_only = \<lparr> draws = [draw_low], weights = ?w2 \<rparr>"
    by (simp_all add: new_engine_def)
  have "generatePrediction \<lparr> draws = [draw_low], weights = ?w1 \<rparr> rnd_zero
      = generatePrediction \<lparr> draws = [draw_low], weights = ?w2 \<rparr> rnd_zero"
    using reserved_weights_have_no_effect [OF f r g] by blast
  then have "predictLottoNumbers [draw_low] no_custom rnd_zero = predictLottoNumbers [draw_low] reserved_only rnd_zero"
    unfolding predictLottoNumbers_def using e1 e2 by simp
  with f r g p show ?thesis by blast
qed

section \<open>Sorting and ranking\<close>

lemma mset_insert_cmp: "mset (insert_cmp c x ys) = add_mset x (mset ys)"
  by (induction ys) simp_all

lemma mset_sort_cmp: "mset (sort_cmp c xs) = mset xs"
  unfolding sort_cmp_def by (induction xs) (simp_all add: mset_insert_cmp)

lemma mset_ranked: "mset (ranked scores) = mset (map fst scores)"
  unfolding ranked_def using mset_sort_cmp [of by_value_desc scores]
  by (metis mset_map)

lemma ranked_props:
  assumes "map fst scores = [1..<50]"
  shows "distinct (ranked scores)" and "set (ranked scores) = {1..<50}" and "length (ranked scores) = 49"
proof -
  have m: "mset (ranked scores) = mset [1..<50]"
    using mset_ranked [of scores] assms by simp
  show "distinct (ranked scores)"
    using m by (metis distinct_upt mset_eq_imp_distinct_iff)
  show "set (ranked scores) = {1..<50}"
    using mset_eq_setD [OF m] by simp
  show "length (ranked scores) = 49"
    using mset_eq_length [OF m] by simp
qed

lemma fst_scores: "map fst (calculateNumberScores this a) = [1..<50]"
  unfolding calculateNumberScores_def by (simp add: comp_def del: upt_rec_numeral)

section \<open>The selection loop\<close>

lemma slice_take: "slice 0 (int n) xs = take n xs"
  unfolding slice_def slice_pos_def by (simp add: Let_def min_def)

lemma weighted_walk_mem: "weighted_walk x zs = Some c \<Longrightarrow> c \<in> snd ` set zs"
  by (induction x zs rule: weighted_walk.induct) (auto split: if_splits)

lemma pick_one_cases:
  "pick_one candidates selected r = selected \<or>
   (\<exists>c. c \<in> set candidates \<and> c \<notin> set selected \<and> pick_one candidates selected r = selected @ [c])"
proof -
  let ?av = "filter (\<lambda>num. num \<notin> set selected) candidates"
  let ?ws = "map (\<lambda>index. (8 / 10 :: real) ^ index) [0..<length ?av]"
  let ?w = "weighted_walk (r * foldl (+) 0 ?ws) (zip ?ws ?av)"
  show ?thesis
  proof (cases ?w)
    case None
    then show ?thesis unfolding pick_one_def by (simp add: Let_def)
  next
    case (Some c)
    then have "c \<in> snd ` set (zip ?ws ?av)" by (rule weighted_walk_mem)
    then have "c \<in> set ?av" by (auto dest: set_zip_rightD)
    then have "c \<in> set candidates \<and> c \<notin> set selected" by simp
    moreover have "pick_one candidates selected r = selected @ [c]"
      unfolding pick_one_def using Some by (simp add: Let_def)
    ultimately show ?thesis by blast
  qed
qed

lemma good_pick_one: "good_pick cs sel \<Longrightarrow> good_pick cs (pick_one cs sel r)"
  using pick_one_cases [of cs sel r] unfolding good_pick_def by auto

lemma good_pick_rounds: "good_pick cs sel \<Longrightarrow> good_pick cs (pick_rounds cs rnd k n sel)"
  by (induction n arbitrary: k sel) (simp_all add: good_pick_one)

lemma good_select_loop:
  "good_pick cs sel \<Longrightarrow> good_pick cs (fst (select_loop cs rng rnd k sel attempts))"
proof (induction cs rng rnd k sel attempts rule: select_loop.induct)
  case (1 cs rng rnd k sel attempts)
  have g: "good_pick cs (pick_rounds cs rnd k 6 [])"
    by (rule good_pick_rounds) (simp add: good_pick_def)
  show ?case
    using "1.IH" "1.prems" g
    by (subst select_loop.simps) (simp add: Let_def)
qed

lemma selectOptimalNumbers_valid:
  assumes "map fst scores = [1..<50]"
  shows "length (fst (selectOptimalNumbers scores a rnd k)) = 6"
    and "distinct (fst (selectOptimalNumbers scores a rnd k))"
    and "set (fst (selectOptimalNumbers scores a rnd k)) \<subseteq> {1..<50}"
proof -
  let ?cs = "ranked scores"
  let ?res = "select_loop ?cs (optimalSumRange a) rnd k [] 0"
  have g: "good_pick ?cs (fst ?res)"
    by (rule good_select_loop) (simp add: good_pick_def)
  have r: "fst (selectOptimalNumbers scores a rnd k) =
           (if length (fst ?res) \<noteq> 6 then take 6 ?cs else fst ?res)"
    unfolding selectOptimalNumbers_def using slice_take [of 6 ?cs]
    by (simp add: Let_def split: prod.splits)
  note rp = ranked_props [OF assms]
  show "length (fst (selectOptimalNumbers scores a rnd k)) = 6"
    unfolding r using rp(3) by simp
  show "distinct (fst (selectOptimalNumbers scores a rnd k))"
    unfolding r using rp(1) g by (simp add: good_pick_def)
  show "set (fst (selectOptimalNumbers scores a rnd k)) \<subseteq> {1..<50}"
    unfolding r using rp(2) g set_take_subset [of 6 ?cs] by (auto simp: good_pick_def)
qed

lemma foldl_add_real: "foldl (+) (a::real) xs = a + sum_list xs"
  by (induction xs arbitrary: a) simp_all

lemma decay_weights_Suc: "decay_weights (Suc n) = 1 # map (\<lambda>w. 8 / 10 * w) (decay_weights n)"
proof -
  have "[0..<Suc n] = 0 # map Suc [0..<n]"
    by (simp add: upt_conv_Cons map_Suc_upt del: upt_Suc)
  then show ?thesis unfolding decay_weights_def by (simp add: comp_def)
qed

lemma decay_total: "sum_list (decay_weights n) = 5 * (1 - (8 / 10) ^ n)"
proof (induction n)
  case 0
  show ?case by (simp add: decay_weights_def)
next
  case (Suc n)
  have "sum_list (decay_weights (Suc n)) = sum_list (decay_weights n) + (8 / 10) ^ n"
    unfolding decay_weights_def by simp
  then show ?case using Suc by (simp add: algebra_simps)
qed

lemma decay_total_less: "sum_list (decay_weights n) < 5"
  unfolding decay_total by simp

lemma decay_total_ge: "0 < n \<Longrightarrow> 1 \<le> sum_list (decay_weights n)"
proof -
  assume "0 < n"
  then have "(8 / 10 :: real) ^ n \<le> (8 / 10) ^ 1"
    by (intro power_decreasing) simp_all
  then show "1 \<le> sum_list (decay_weights n)" unfolding decay_total by simp
qed

lemma walk_succeeds:
  "ws \<noteq> [] \<Longrightarrow> length cs = length ws \<Longrightarrow> x \<le> sum_list ws \<Longrightarrow>
   \<exists>c. weighted_walk x (zip ws cs) = Some c"
proof (induction ws arbitrary: x cs)
  case Nil
  then show ?case by simp
next
  case (Cons w ws)
  then obtain c cs' where cs: "cs = c # cs'" by (cases cs) auto
  show ?case
  proof (cases "x - w \<le> 0")
    case True
    then show ?thesis unfolding cs by simp
  next
    case False
    then have pos: "0 < x - w" by simp
    have le: "x - w \<le> sum_list ws" using Cons.prems(3) by simp
    have "ws \<noteq> []" using pos le by auto
    moreover have "length cs' = length ws" using Cons.prems(2) cs by simp
    ultimately obtain d where "weighted_walk (x - w) (zip ws cs') = Some d"
      using Cons.IH le by blast
    then show ?thesis unfolding cs using False by simp
  qed
qed

lemma pick_one_unfold:
  "pick_one candidates selected r =
     (case weighted_walk (r * sum_list (decay_weights (length (filter (\<lambda>num. num \<notin> set selected) candidates))))
             (zip (decay_weights (length (filter (\<lambda>num. num \<notin> set selected) candidates)))
                  (filter (\<lambda>num. num \<notin> set selected) candidates)) of
        None \<Rightarrow> selected | Some c \<Rightarrow> selected @ [c])"
  unfolding pick_one_def decay_weights_def by (simp add: Let_def foldl_add_real)

lemma pick_one_grows:
  assumes "filter (\<lambda>num. num \<notin> set selected) candidates \<noteq> []" and "r \<le> 1"
  shows "length (pick_one candidates selected r) = Suc (length selected)"
proof -
  let ?av = "filter (\<lambda>num. num \<notin> set selected) candidates"
  let ?ws = "decay_weights (length ?av)"
  have n: "0 < length ?av" using assms(1) by simp
  have ne: "?ws \<noteq> []" using n unfolding decay_weights_def by simp
  have "0 \<le> sum_list ?ws" using decay_total_ge [OF n] by simp
  then have "r * sum_list ?ws \<le> sum_list ?ws" using assms(2) mult_right_mono [of r 1 "sum_list ?ws"] by simp
  moreover have "length ?av = length ?ws" unfolding decay_weights_def by simp
  ultimately obtain c where "weighted_walk (r * sum_list ?ws) (zip ?ws ?av) = Some c"
    using walk_succeeds [OF ne] by blast
  then show ?thesis unfolding pick_one_unfold by simp
qed

lemma available_nonempty:
  assumes "distinct candidates" and "length selected < length candidates"
  shows "filter (\<lambda>num. num \<notin> set selected) candidates \<noteq> []"
proof
  assume "filter (\<lambda>num. num \<notin> set selected) candidates = []"
  then have "set candidates \<subseteq> set selected" by (auto simp: filter_empty_conv)
  then have "card (set candidates) \<le> card (set selected)" by (intro card_mono) simp_all
  moreover have "card (set candidates) = length candidates" using assms(1) by (rule distinct_card)
  moreover have "card (set selected) \<le> length selected" by (rule card_length)
  ultimately show False using assms(2) by simp
qed

lemma pick_rounds_length:
  assumes "distinct candidates" and "unit_source rnd"
  shows "length selected + n \<le> length candidates \<Longrightarrow>
         length (pick_rounds candidates rnd k n selected) = length selected + n"
proof (induction n arbitrary: k selected)
  case 0
  show ?case by simp
next
  case (Suc n)
  have r: "rnd k \<le> 1" using assms(2) unfolding unit_source_def by (simp add: less_imp_le)
  have "length selected < length candidates" using Suc.prems by simp
  then have g: "length (pick_one candidates selected (rnd k)) = Suc (length selected)"
    using pick_one_grows [OF available_nonempty [OF assms(1)] r] by simp
  show ?case using Suc.IH [of "pick_one candidates selected (rnd k)" "Suc k"] Suc.prems g by simp
qed

lemma select_loop_one_attempt:
  assumes "length (pick_rounds candidates rnd k 6 []) = 6"
  shows "select_loop candidates rng rnd k [] 0 = (pick_rounds candidates rnd k 6 [], k + 6)"
proof -
  let ?sel = "pick_rounds candidates rnd k 6 []"
  have stop: "select_loop candidates rng rnd (k + 6) ?sel (0 + 1) = (?sel, k + 6)"
    using assms by (subst select_loop.simps) simp
  show ?thesis
    using stop by (subst select_loop.simps) (simp add: Let_def)
qed

lemma selectOptimalNumbers_first_attempt:
  assumes "map fst scores = [1..<50]" and "unit_source rnd"
  shows "selectOptimalNumbers scores a rnd k = (pick_rounds (ranked scores) rnd k 6 [], k + 6)"
proof -
  note rp = ranked_props [OF assms(1)]
  have len: "length (pick_rounds (ranked scores) rnd k 6 []) = 6"
    using pick_rounds_length [OF rp(1) assms(2), of "[]" 6 k] rp(3) by simp
  show ?thesis
    unfolding selectOptimalNumbers_def using select_loop_one_attempt [OF len] len by (simp add: Let_def)
qed

lemma pick_one_head:
  assumes "filter (\<lambda>num. num \<notin> set selected) candidates = c # rest"
  shows "pick_one candidates selected 0 = selected @ [c]"
  unfolding pick_one_unfold assms by (simp add: decay_weights_Suc)

lemma pick_one_second:
  assumes "filter (\<lambda>num. num \<notin> set selected) candidates = c0 # c1 # rest" and "3 \<le> length rest"
  shows "pick_one candidates selected (3 / 10) = selected @ [c1]"
proof -
  let ?n = "Suc (Suc (length rest))"
  have eq: "sum_list (decay_weights ?n) = 5 * (1 - (8 / 10) ^ ?n)" by (rule decay_total)
  have "(8 / 10 :: real) ^ ?n \<le> (8 / 10) ^ 5"
    using assms(2) by (intro power_decreasing) simp_all
  then have lo: "10 / 3 < sum_list (decay_weights ?n)" unfolding eq by (simp add: power_def)
  have hi: "sum_list (decay_weights ?n) < 5" by (rule decay_total_less)
  show ?thesis
    unfolding pick_one_unfold assms(1) using lo hi
    by (simp add: decay_weights_Suc del: sum_list.Cons)
qed

lemma pick_one_zero:
  "pick_one candidates selected 0 = selected @ take 1 (filter (\<lambda>num. num \<notin> set selected) candidates)"
proof (cases "filter (\<lambda>num. num \<notin> set selected) candidates")
  case Nil
  then show ?thesis unfolding pick_one_unfold by (simp add: decay_weights_def)
next
  case (Cons c rest)
  then show ?thesis using pick_one_head [OF Cons] by simp
qed

lemma pick_rounds_six:
  "pick_rounds cs rnd k 6 sel =
     pick_one cs (pick_one cs (pick_one cs (pick_one cs (pick_one cs (pick_one cs sel
       (rnd k)) (rnd (k + 1))) (rnd (k + 2))) (rnd (k + 3))) (rnd (k + 4))) (rnd (k + 5))"
  by (simp add: eval_nat_numeral)

lemma unit_rnd_late: "unit_source rnd_late"
  unfolding unit_source_def rnd_late_def by simp

lemma first_attempt_late: "pick_rounds all49 rnd_late 0 6 [] = [1, 2, 3, 4, 5, 7]"
proof -
  have z: "rnd_late 0 = 0" "rnd_late (0 + 1) = 0" "rnd_late (0 + 2) = 0" "rnd_late (0 + 3) = 0"
      "rnd_late (0 + 4) = 0"
    and l: "rnd_late (0 + 5) = 3 / 10"
    unfolding rnd_late_def by simp_all
  have five: "pick_one all49 (pick_one all49 (pick_one all49 (pick_one all49 (pick_one all49 [] 0) 0) 0) 0) 0
                = [1, 2, 3, 4, 5]"
    unfolding pick_one_zero by code_simp
  have last: "pick_one all49 [1, 2, 3, 4, 5] (3 / 10) = [1, 2, 3, 4, 5] @ [7]"
  proof (rule pick_one_second [where ?c0.0 = 6])
    show "filter (\<lambda>num. num \<notin> set [1, 2, 3, 4, 5]) all49 = 6 # 7 # drop 7 all49"
      by code_simp
    show "3 \<le> length (drop 7 all49)"
      by code_simp
  qed
  show ?thesis
    unfolding pick_rounds_six z l five last by simp
qed

lemma second_attempt_late: "pick_rounds all49 rnd_late 6 6 [] = [1, 2, 3, 4, 5, 6]"
proof -
  have z: "rnd_late 6 = 0" "rnd_late (6 + 1) = 0" "rnd_late (6 + 2) = 0" "rnd_late (6 + 3) = 0"
      "rnd_late (6 + 4) = 0" "rnd_late (6 + 5) = 0"
    unfolding rnd_late_def by simp_all
  have six: "pick_one all49 (pick_one all49 (pick_one all49 (pick_one all49 (pick_one all49 (pick_one all49 [] 0) 0) 0) 0) 0) 0
                = [1, 2, 3, 4, 5, 6]"
    unfolding pick_one_zero by code_simp
  show ?thesis
    unfolding pick_rounds_six z six by (rule refl)
qed

section \<open>Main numbers and bonus ball\<close>

lemma bonus_valid:
  assumes "unit_source rnd"
  shows "\<exists>b. fst (predictBonusBall this rnd k) = Some b \<and> 1 \<le> b \<and> b \<le> 49"
proof -
  let ?scores = "map (\<lambda>num. (num, jmul (jdiv (Fin (or_zero (bonusFreq this) num))
        (Math_max_spread (map (\<lambda>e. Fin (snd e)) (bonusFreq this)))) (Fin 100))) [1..<50]"
  define cs where "cs = ranked ?scores"
  define top where "top = slice 0 10 cs"
  define j where "j = \<lfloor>rnd k * real (min (length top) 5)\<rfloor>"
  have res: "fst (predictBonusBall this rnd k) = at_index top j"
    unfolding predictBonusBall_def top_def j_def cs_def by (simp add: Let_def del: upt_rec_numeral)
  have f: "map fst ?scores = [1..<50]" by (simp add: comp_def del: upt_rec_numeral)
  have rp: "set cs = {1..<50}" "length cs = 49"
    unfolding cs_def using ranked_props [OF f] by blast+
  have t: "top = take 10 cs" unfolding top_def using slice_take [of 10 cs] by simp
  have len: "length top = 10" unfolding t using rp(2) by simp
  have r: "0 \<le> rnd k" "rnd k < 1" using assms unfolding unit_source_def by auto
  have j0: "0 \<le> j" unfolding j_def using r len by simp
  have "rnd k * 5 < 5" using r by simp
  then have j5: "j < 5" unfolding j_def using len by (simp add: floor_less_iff)
  have n5: "nat j < 5" using j0 j5 by linarith
  have a: "at_index top j = Some (top ! nat j)"
    unfolding at_index_def using j0 j5 len by simp
  have b: "top ! nat j = cs ! nat j"
    unfolding t using n5 by simp
  have "cs ! nat j \<in> set cs"
    using n5 rp(2) by (intro nth_mem) linarith
  then have c: "1 \<le> cs ! nat j \<and> cs ! nat j \<le> 49"
    unfolding rp(1) by auto
  show ?thesis unfolding res a b using c by simp
qed

lemma prediction_numbers:
  assumes "unit_source rnd"
  shows "length (suggestedNumbers (generatePrediction this rnd)) = 6
       \<and> distinct (suggestedNumbers (generatePrediction this rnd))
       \<and> sorted (suggestedNumbers (generatePrediction this rnd))
       \<and> (\<forall>n \<in> set (suggestedNumbers (generatePrediction this rnd)). 1 \<le> n \<and> n \<le> 49)
       \<and> (\<exists>b. bonusBall (generatePrediction this rnd) = Some b \<and> 1 \<le> b \<and> b \<le> 49)"
proof -
  let ?a = "performCompleteAnalysis this"
  let ?scores = "calculateNumberScores this ?a"
  let ?sel = "selectOptimalNumbers ?scores ?a rnd 0"
  have s: "suggestedNumbers (generatePrediction this rnd) = sort (fst ?sel)"
    unfolding generatePrediction_def by (simp add: Let_def split: prod.splits)
  have b: "bonusBall (generatePrediction this rnd) = fst (predictBonusBall this rnd (snd ?sel))"
    unfolding generatePrediction_def by (simp add: Let_def split: prod.splits)
  note v = selectOptimalNumbers_valid [OF fst_scores, of this ?a ?a rnd 0]
  have "\<forall>n \<in> set (sort (fst ?sel)). 1 \<le> n \<and> n \<le> 49" using v(3) by auto
  then show ?thesis
    unfolding s b using v(1,2) bonus_valid [OF assms, of this "snd ?sel"] by simp
qed

text \<open>
  Claim C2. For every draw history (in particular every non-empty one) and every weight
  configuration, on a random source that keeps the contract of \<^verbatim>\<open>Math.random()\<close>,
  \<^verbatim>\<open>generatePrediction\<close> returns exactly 6 distinct main numbers, each in 1..49, sorted
  ascending, and a bonus number in 1..49.
\<close>

theorem generatePrediction_numbers_valid:
  assumes "unit_source rnd"
  shows "length (suggestedNumbers (generatePrediction this rnd)) = 6
       \<and> distinct (suggestedNumbers (generatePrediction this rnd))
       \<and> sorted (suggestedNumbers (generatePrediction this rnd))
       \<and> (\<forall>n \<in> set (suggestedNumbers (generatePrediction this rnd)). 1 \<le> n \<and> n \<le> 49)
       \<and> (\<exists>b. bonusBall (generatePrediction this rnd) = Some b \<and> 1 \<le> b \<and> b \<le> 49)"
  using assms by (rule prediction_numbers)

text \<open>The history of one draw, the default weights and the source \<open>rnd_late\<close>.\<close>

theorem generatePrediction_numbers_valid_witness:
  "unit_source rnd_late
   \<and> length (suggestedNumbers (generatePrediction (new_engine [draw_low] no_custom) rnd_late)) = 6
   \<and> distinct (suggestedNumbers (generatePrediction (new_engine [draw_low] no_custom) rnd_late))
   \<and> (\<exists>b. bonusBall (generatePrediction (new_engine [draw_low] no_custom) rnd_late) = Some b
          \<and> 1 \<le> b \<and> b \<le> 49)"
  using generatePrediction_numbers_valid [OF unit_rnd_late, of "new_engine [draw_low] no_custom"]
    unit_rnd_late by simp

section \<open>Confidence\<close>

lemma foldl_add_nat: "foldl (+) (a::nat) xs = a + sum_list xs"
  by (induction xs arbitrary: a) simp_all

lemma jadd_NaN_right: "jadd a NaN = NaN" by (cases a) simp_all
lemma jmul_NaN_right: "jmul a NaN = NaN" by (cases a) simp_all
lemma jsub_NaN_right: "jsub a NaN = NaN" unfolding jsub_def by (simp add: jadd_NaN_right)

lemma confidence_NaN_target:
  "target (optimalSumRange a) = NaN \<Longrightarrow> calculateConfidence a selectedNumbers = NaN"
  unfolding calculateConfidence_def by (simp add: Let_def jsub_NaN_right Math_min_def Math_max_def)

lemma confidence_finite_target:
  assumes "target (optimalSumRange a) = Fin t"
  shows "calculateConfidence a selectedNumbers =
           Fin (max 10 (min 95
             (50 + 8 * real (count_in selectedNumbers (dueNumbers a))
                 + 5 * real (count_in selectedNumbers (hotNumbers a))
                 + 3 * real (count_in selectedNumbers (coldNumbers a))
                 - 15 * real (count_in selectedNumbers (avoidNumbers a))
                 - (1 / 2) * \<bar>real (sum_list selectedNumbers) - t\<bar>)))"
proof -
  have s: "foldl (+) 0 selectedNumbers = sum_list selectedNumbers"
    by (simp add: foldl_add_nat)
  show ?thesis
    unfolding calculateConfidence_def assms s
    by (simp add: Let_def jsub_def Math_min_def Math_max_def max_def min_def algebra_simps)
qed

lemma weightedSums_empty: "draws this = [] \<Longrightarrow> weightedSums this = []"
  unfolding weightedSums_def by simp

lemma target_empty_history:
  "draws this = [] \<Longrightarrow> target (optimalSumRange (performCompleteAnalysis this)) = NaN"
  unfolding performCompleteAnalysis_def calculateOptimalSumRange_def analyzeSumDistribution_def
  by (simp add: Let_def weightedSums_empty mean_of_def)

lemma weightedSums_nonempty: "draws this \<noteq> [] \<Longrightarrow> weightedSums this \<noteq> []"
  unfolding weightedSums_def by (cases "draws this") auto

lemma target_nonempty_history:
  assumes "draws this \<noteq> []"
  shows "\<exists>t. target (optimalSumRange (performCompleteAnalysis this)) = Fin t"
proof -
  have "real (length (weightedSums this)) \<noteq> 0" using weightedSums_nonempty [OF assms] by simp
  then have "\<exists>m. mean_of (weightedSums this) = Fin m" unfolding mean_of_def by simp
  then show ?thesis
    unfolding performCompleteAnalysis_def calculateOptimalSumRange_def analyzeSumDistribution_def
    by (auto simp: Let_def)
qed

lemma confidence_of_prediction:
  "confidence (generatePrediction this rnd) =
     calculateConfidence (performCompleteAnalysis this)
       (fst (selectOptimalNumbers (calculateNumberScores this (performCompleteAnalysis this))
               (performCompleteAnalysis this) rnd 0))"
  unfolding generatePrediction_def by (simp add: Let_def split: prod.splits)

lemma confidence_in_range_nonempty:
  assumes "draws this \<noteq> []"
  shows "\<exists>c. confidence (generatePrediction this rnd) = Fin c \<and> 10 \<le> c \<and> c \<le> 95"
proof -
  obtain t where t: "target (optimalSumRange (performCompleteAnalysis this)) = Fin t"
    using target_nonempty_history [OF assms] by blast
  show ?thesis
    unfolding confidence_of_prediction confidence_finite_target [OF t] by simp
qed

text \<open>
  Claim C3, evaluated on the empty draw history: whatever the custom weights and the
  random source are, the confidence of the prediction is \<^verbatim>\<open>NaN\<close>, which is not in the
  interval from 10 to 95. (For a non-empty history the confidence is the clamped formula,
  \<open>confidence_finite_target\<close> and \<open>confidence_in_range_nonempty\<close>.)
\<close>

theorem confidence_empty_history_NaN:
  "confidence (predictLottoNumbers [] customWeights rnd) = NaN"
  unfolding predictLottoNumbers_def confidence_of_prediction
  by (rule confidence_NaN_target, rule target_empty_history) (simp add: new_engine_def)

section \<open>Frequencies and cold numbers of 150 identical draws\<close>

text \<open>
  Claim C6, as amended. For the history of 150 identical draws 1, 2, 3, 4, 5, 6 with bonus
  7, the all-time weighted frequency of each of 1 to 6 is \<open>2 * 100 + 1 * 50 = 250\<close>, and the
  cold set is 7 to 21: the first 15, in ascending order, of the numbers absent from the
  last 20 draws.
\<close>

theorem frequency_250_cold_capped:
  "calculateAllTimeFrequency (new_engine history150 no_custom)
     = [(1, 250), (2, 250), (3, 250), (4, 250), (5, 250), (6, 250)]
   \<and> identifyColdNumbers (new_engine history150 no_custom)
     = [7..<22]"
  by code_simp

text \<open>
  Claim C6 as stated fails: 49 is never drawn in that history and is not in the cold set,
  which \<^verbatim>\<open>.slice(0, 15)\<close> cuts off after 21.
\<close>

theorem cold_set_49_counterexample:
  "49 \<notin> set (concat (map mainNumbers history150))
   \<and> 49 \<notin> set (identifyColdNumbers (new_engine history150 no_custom))"
  by code_simp

section \<open>Trend analysis on short histories\<close>

lemma length_slice_from_neg:
  "0 < k \<Longrightarrow> length (slice_from (- int k) xs) = min k (length xs)"
  unfolding slice_from_def slice_def slice_pos_def by (simp add: Let_def)

lemma length_slice_older:
  "length (slice (- 20) (- 10) xs) = min 10 (length xs - 10)"
  unfolding slice_def slice_pos_def by (simp add: Let_def)

lemma squares_fold:
  "foldl (\<lambda>acc val. jadd acc (Math_pow2 (jsub (Fin val) (Fin m)))) (Fin a) vs
     = Fin (a + (\<Sum>v\<leftarrow>vs. (v - m) * (v - m)))"
  by (induction vs arbitrary: a) (simp_all add: Math_pow2_def jsub_def algebra_simps)

lemma mean_finite: "vs \<noteq> [] \<Longrightarrow> mean_of vs = Fin (sum_list vs / real (length vs))"
  unfolding mean_of_def by (simp add: foldl_add_real)

lemma variance_finite:
  assumes "vs \<noteq> []"
  shows "\<exists>v. variance_of vs (Fin m) = Fin v \<and> 0 \<le> v"
proof -
  have "0 \<le> (\<Sum>v\<leftarrow>vs. (v - m) * (v - m))" by (rule sum_list_nonneg) auto
  then show ?thesis unfolding variance_of_def squares_fold using assms by simp
qed

lemma trend_NaN:
  assumes "length (draws this) \<le> 10"
  shows "recentTrend (analyzeTrends this) = NaN"
proof -
  have "length (slice (- 20) (- 10) (draws this)) = 0"
    unfolding length_slice_older using assms by simp
  then have "slice (- 20) (- 10) (draws this) = []" by simp
  then show ?thesis
    unfolding analyzeTrends_def by (simp add: Let_def mean_of_def jsub_NaN_right)
qed

lemma volatility_nonempty:
  assumes "draws this \<noteq> []"
  shows "\<exists>v. volatility (analyzeTrends this) = Fin v \<and> 0 \<le> v"
proof -
  let ?rs = "map (\<lambda>draw. real (drawSum draw)) (slice_from (- 10) (draws this))"
  have "length (slice_from (- int 10) (draws this)) = min 10 (length (draws this))"
    by (rule length_slice_from_neg) simp
  moreover have "0 < length (draws this)" using assms by simp
  ultimately have "0 < length (slice_from (- 10) (draws this))" by simp
  then have ne: "?rs \<noteq> []" by simp
  obtain v where v: "variance_of ?rs (Fin (sum_list ?rs / real (length ?rs))) = Fin v" "0 \<le> v"
    using variance_finite [OF ne] by blast
  have "volatility (analyzeTrends this) = Fin (sqrt v)"
    unfolding analyzeTrends_def using v by (simp add: Let_def mean_finite [OF ne])
  then show ?thesis using v(2) by simp
qed

lemma volatility_empty:
  assumes "draws this = []"
  shows "volatility (analyzeTrends this) = NaN"
  unfolding analyzeTrends_def using assms
  by (simp add: Let_def slice_from_def slice_def variance_of_def mean_of_def)

text \<open>
  Claim C8, as amended. For every history with fewer than 10 draws \<^verbatim>\<open>analyzeTrends\<close>
  returns a trend record whose \<open>recentTrend\<close> is \<^verbatim>\<open>NaN\<close>: the recent window
  \<^verbatim>\<open>slice(-10)\<close> holds \<open>min 10 (length (draws this))\<close> draws, the older window
  \<^verbatim>\<open>slice(-20, -10)\<close> holds none, and the average of the older window is the unguarded
  division \<^verbatim>\<open>0 / 0\<close>. The volatility is a number that is not negative when the history
  has a draw, and \<^verbatim>\<open>NaN\<close> when it has none.
\<close>

theorem analyzeTrends_short_history:
  assumes "length (draws this) < 10"
  shows "recentTrend (analyzeTrends this) = NaN
       \<and> (draws this \<noteq> [] \<longrightarrow> (\<exists>v. volatility (analyzeTrends this) = Fin v \<and> 0 \<le> v))
       \<and> (draws this = [] \<longrightarrow> volatility (analyzeTrends this) = NaN)
       \<and> length (slice_from (- 10) (draws this)) = min 10 (length (draws this))
       \<and> length (slice (- 20) (- 10) (draws this)) = 0"
proof -
  have "length (slice_from (- int 10) (draws this)) = min 10 (length (draws this))"
    by (rule length_slice_from_neg) simp
  moreover have "length (slice (- 20) (- 10) (draws this)) = 0"
    unfolding length_slice_older using assms by simp
  ultimately show ?thesis
    using trend_NaN [of this] assms volatility_nonempty [of this] volatility_empty [of this]
    by simp
qed

text \<open>The history of one draw.\<close>

theorem analyzeTrends_short_history_witness:
  "length (draws (new_engine [draw_low] no_custom)) < 10
   \<and> recentTrend (analyzeTrends (new_engine [draw_low] no_custom)) = NaN
   \<and> (\<exists>v. volatility (analyzeTrends (new_engine [draw_low] no_custom)) = Fin v \<and> 0 \<le> v)"
proof -
  have l: "length (draws (new_engine [draw_low] no_custom)) < 10"
    by (simp add: new_engine_def)
  have n: "draws (new_engine [draw_low] no_custom) \<noteq> []"
    by (simp add: new_engine_def)
  show ?thesis
    using analyzeTrends_short_history [OF l] l n by blast
qed

text \<open>
  Claim C8 as stated fails: on the history of one draw the division by the length 0 of
  the older window is not replaced by 0, and \<open>recentTrend\<close> is \<^verbatim>\<open>NaN\<close>.
\<close>

theorem trend_division_unguarded_counterexample:
  "length (draws (new_engine [draw_low] no_custom)) < 10
   \<and> recentTrend (analyzeTrends (new_engine [draw_low] no_custom)) = NaN
   \<and> recentTrend (analyzeTrends (new_engine [draw_low] no_custom)) \<noteq> Fin 0"
proof -
  have l: "length (draws (new_engine [draw_low] no_custom)) \<le> 10"
    by (simp add: new_engine_def)
  show ?thesis using trend_NaN [OF l] by (simp add: new_engine_def)
qed

section \<open>Evaluating the engine\<close>

lemma scores_view:
  "calculateNumberScores this (performCompleteAnalysis this) = calculateNumberScores this (scoring_view this)"
  unfolding calculateNumberScores_def score_of_def performCompleteAnalysis_def scoring_view_def
  by (simp del: upt_rec_numeral)

lemma alternatives_view:
  "generateAlternativeSets scores (performCompleteAnalysis this) rnd k
   = generateAlternativeSets scores (scoring_view this) rnd k"
proof -
  have "candidatePool_of n tc (performCompleteAnalysis this) = candidatePool_of n tc (scoring_view this)" for n tc
    unfolding candidatePool_of_def performCompleteAnalysis_def scoring_view_def by simp
  then have "alt_step tc (performCompleteAnalysis this) rnd = alt_step tc (scoring_view this) rnd" for tc
    unfolding alt_step_def by simp
  then show ?thesis unfolding generateAlternativeSets_def by simp
qed

lemma suggested_of_prediction:
  "suggestedNumbers (generatePrediction this rnd) =
     sort (fst (selectOptimalNumbers (calculateNumberScores this (performCompleteAnalysis this))
               (performCompleteAnalysis this) rnd 0))"
  unfolding generatePrediction_def by (simp add: Let_def split: prod.splits)

section \<open>The selection on the history of one draw\<close>

lemma ranked_one_draw:
  "ranked (calculateNumberScores (new_engine [draw_low] no_custom)
             (performCompleteAnalysis (new_engine [draw_low] no_custom))) = all49"
  unfolding scores_view by code_simp

lemma range_one_draw:
  "optimalSumRange (performCompleteAnalysis (new_engine [draw_low] no_custom))
     = \<lparr> range_lo = Fin 21, range_hi = Fin 21, target = Fin 21 \<rparr>"
proof -
  have ws: "weightedSums (new_engine [draw_low] no_custom) = [21, 21]" by code_simp
  have m: "mean_of [21, 21] = Fin 21" by code_simp
  have v: "variance_of [21, 21] (Fin 21) = Fin 0" by code_simp
  show ?thesis
    unfolding performCompleteAnalysis_def calculateOptimalSumRange_def analyzeSumDistribution_def
    by (simp add: Let_def ws m v jsub_def)
qed

text \<open>
  Claim C1, evaluated on the history of one draw 1, 2, 3, 4, 5, 6 with the default weights
  and the random source \<open>rnd_late\<close>. The optimal sum range is 21 to 21. The first attempt
  draws 1, 2, 3, 4, 5, 7 with sum 22, outside the range, and \<^verbatim>\<open>selectOptimalNumbers\<close>
  returns it after 6 random numbers: the loop condition \<^verbatim>\<open>selected.length < 6\<close> is false
  once an attempt is complete, so no second attempt is made, although the second attempt
  (positions 6 to 11 of the source) would draw 1, 2, 3, 4, 5, 6 with sum 21. In the model,
  where numbers are exact reals, every complete attempt is returned whatever its sum
  (\<open>selectOptimalNumbers_first_attempt\<close>).
\<close>

theorem selection_stops_after_first_attempt:
  "optimalSumRange (performCompleteAnalysis (new_engine [draw_low] no_custom))
     = \<lparr> range_lo = Fin 21, range_hi = Fin 21, target = Fin 21 \<rparr>
   \<and> selectOptimalNumbers
       (calculateNumberScores (new_engine [draw_low] no_custom)
          (performCompleteAnalysis (new_engine [draw_low] no_custom)))
       (performCompleteAnalysis (new_engine [draw_low] no_custom)) rnd_late 0
     = ([1, 2, 3, 4, 5, 7], 6)
   \<and> foldl (+) 0 [1, 2, 3, 4, 5, 7 :: nat] = 22
   \<and> pick_rounds
       (ranked (calculateNumberScores (new_engine [draw_low] no_custom)
          (performCompleteAnalysis (new_engine [draw_low] no_custom)))) rnd_late 6 6 []
     = [1, 2, 3, 4, 5, 6]
   \<and> suggestedNumbers (generatePrediction (new_engine [draw_low] no_custom) rnd_late)
     = [1, 2, 3, 4, 5, 7]"
proof -
  let ?e = "new_engine [draw_low] no_custom"
  let ?a = "performCompleteAnalysis ?e"
  let ?scores = "calculateNumberScores ?e ?a"
  have sel: "selectOptimalNumbers ?scores ?a rnd_late 0 = ([1, 2, 3, 4, 5, 7], 6)"
    unfolding selectOptimalNumbers_first_attempt [OF fst_scores unit_rnd_late]
      ranked_one_draw first_attempt_late by simp
  have "suggestedNumbers (generatePrediction ?e rnd_late) = sort [1, 2, 3, 4, 5, 7]"
    unfolding suggested_of_prediction sel by simp
  then have sug: "suggestedNumbers (generatePrediction ?e rnd_late) = [1, 2, 3, 4, 5, 7]"
    by simp
  show ?thesis
    using range_one_draw sel sug second_attempt_late unfolding ranked_one_draw by simp
qed

section \<open>The empty history\<close>

lemma map_of_tabulate:
  "map_of (map (\<lambda>k. (k, f k)) ks) k = (if k \<in> set ks then Some (f k) else None)"
  by (induction ks) auto

lemma empty_allTime: "draws this = [] \<Longrightarrow> calculateAllTimeFrequency this = []"
  unfolding calculateAllTimeFrequency_def by simp

lemma empty_recent: "draws this = [] \<Longrightarrow> calculateRecentFrequency this k = []"
  unfolding calculateRecentFrequency_def slice_from_def slice_def by (simp add: Let_def)

lemma empty_gaps_of: "draws this = [] \<Longrightarrow> gaps_of this num = []"
  unfolding gaps_of_def by simp

lemma empty_expected:
  "draws this = [] \<Longrightarrow>
   as_number (calculateExpectedGaps this) num = (if num \<in> set [1..<50] then Fin 0 else NaN)"
  unfolding as_number_def calculateExpectedGaps_def calculateTotalWeightedDraws_def
  by (simp add: Let_def map_of_tabulate del: upt_rec_numeral set_upt)

lemma empty_hot: "draws this = [] \<Longrightarrow> identifyHotNumbers this = []"
  unfolding identifyHotNumbers_def
  by (simp add: Let_def empty_recent entries_num_def sort_cmp_def slice_def)

lemma empty_avoid: "draws this = [] \<Longrightarrow> identifyAvoidNumbers this = []"
  unfolding identifyAvoidNumbers_def
  by (simp add: Let_def empty_recent entries_num_def sort_cmp_def slice_def)

lemma empty_due:
  assumes "draws this = []"
  shows "identifyDueNumbers this = []"
proof -
  have "filter (\<lambda>(num, gapArray).
           let currentGap = last_or_zero gapArray
           in jgt (Fin (real_of_int currentGap)) (jmul (as_number (calculateExpectedGaps this) num) (Fin (15 / 10))))
         (calculateGaps this) = []"
    unfolding calculateGaps_def filter_empty_conv
    by (auto simp: empty_gaps_of [OF assms] empty_expected [OF assms] last_or_zero_def jgt_def
          simp del: upt_rec_numeral)
  then show ?thesis
    unfolding identifyDueNumbers_def by (simp add: Let_def sort_cmp_def slice_def)
qed

lemma empty_score:
  assumes "draws this = []"
  shows "score_of this (performCompleteAnalysis this) num = Fin 0"
proof -
  have eg: "as_number (calculateExpectedGaps this) num = Fin 0 \<or> as_number (calculateExpectedGaps this) num = NaN"
    using empty_expected [OF assms, of num] by (simp split: if_splits)
  have cg: "(case map_of (calculateGaps this) num of None \<Rightarrow> 0 | Some gapArray \<Rightarrow> last_or_zero gapArray) = 0"
    unfolding calculateGaps_def map_of_tabulate
    by (simp add: empty_gaps_of [OF assms] last_or_zero_def del: upt_rec_numeral)
  show ?thesis
    unfolding score_of_def performCompleteAnalysis_def
    using eg
    by (auto simp: Let_def cg empty_allTime [OF assms] empty_recent [OF assms] empty_hot [OF assms]
          empty_avoid [OF assms] empty_due [OF assms] or_zero_def Math_max_spread_def jgt_def
          Math_min_def)
qed

lemma empty_scores:
  "draws this = [] \<Longrightarrow>
   calculateNumberScores this (performCompleteAnalysis this) = map (\<lambda>num. (num, Fin 0)) [1..<50]"
  unfolding calculateNumberScores_def by (simp add: empty_score del: upt_rec_numeral)

lemma ranked_zero_scores: "ranked (map (\<lambda>num. (num, Fin 0)) [1..<50]) = all49"
  by code_simp

lemma empty_ranked:
  "draws this = [] \<Longrightarrow> ranked (calculateNumberScores this (performCompleteAnalysis this)) = all49"
  by (simp only: empty_scores ranked_zero_scores)

lemma range_empty_history:
  "draws this = [] \<Longrightarrow>
   optimalSumRange (performCompleteAnalysis this)
     = \<lparr> range_lo = NaN, range_hi = NaN, target = NaN \<rparr>"
  unfolding performCompleteAnalysis_def calculateOptimalSumRange_def analyzeSumDistribution_def
  by (simp add: Let_def weightedSums_empty mean_of_def variance_of_def jsub_def)

text \<open>
  Claim C4, evaluated on the empty draw history with the default weights and the random
  source \<open>rnd_late\<close>. The optimal sum range is \<^verbatim>\<open>NaN\<close> to \<^verbatim>\<open>NaN\<close>, which no sum meets.
  All 49 numbers are candidates, and the deterministic top-6 set of the fallback is
  1, 2, 3, 4, 5, 6. \<^verbatim>\<open>selectOptimalNumbers\<close> reads 6 random numbers and returns its first
  attempt 1, 2, 3, 4, 5, 7, not the fallback set: once the attempt is complete the loop
  condition \<^verbatim>\<open>selected.length < 6\<close> is false and the test \<^verbatim>\<open>selected.length !== 6\<close> that
  guards the fallback fails.
\<close>

theorem empty_history_returns_first_attempt:
  "optimalSumRange (performCompleteAnalysis (new_engine [] no_custom))
     = \<lparr> range_lo = NaN, range_hi = NaN, target = NaN \<rparr>
   \<and> selectOptimalNumbers
       (calculateNumberScores (new_engine [] no_custom)
          (performCompleteAnalysis (new_engine [] no_custom)))
       (performCompleteAnalysis (new_engine [] no_custom)) rnd_late 0
     = ([1, 2, 3, 4, 5, 7], 6)
   \<and> slice 0 6 (ranked (calculateNumberScores (new_engine [] no_custom)
                          (performCompleteAnalysis (new_engine [] no_custom))))
     = [1, 2, 3, 4, 5, 6]
   \<and> suggestedNumbers (predictLottoNumbers [] no_custom rnd_late) = [1, 2, 3, 4, 5, 7]"
proof -
  let ?e = "new_engine [] no_custom"
  let ?a = "performCompleteAnalysis ?e"
  let ?scores = "calculateNumberScores ?e ?a"
  have d: "draws ?e = []" by (simp add: new_engine_def)
  have rng: "optimalSumRange ?a = \<lparr> range_lo = NaN, range_hi = NaN, target = NaN \<rparr>"
    using d by (rule range_empty_history)
  have sel: "selectOptimalNumbers ?scores ?a rnd_late 0 = ([1, 2, 3, 4, 5, 7], 6)"
    unfolding selectOptimalNumbers_first_attempt [OF fst_scores unit_rnd_late]
      empty_ranked [OF d] first_attempt_late by simp
  have "suggestedNumbers (generatePrediction ?e rnd_late) = sort [1, 2, 3, 4, 5, 7]"
    unfolding suggested_of_prediction sel by simp
  then have sug: "suggestedNumbers (predictLottoNumbers [] no_custom rnd_late) = [1, 2, 3, 4, 5, 7]"
    unfolding predictLottoNumbers_def by simp
  have tc: "slice 0 6 (ranked ?scores) = [1, 2, 3, 4, 5, 6]"
    unfolding empty_ranked [OF d] by code_simp
  show ?thesis
    by (intro conjI) (rule rng sel tc sug)+
qed

section \<open>Alternative sets\<close>

lemma splice1_in_range:
  assumes "0 \<le> i" and "i < int (length xs)"
  shows "splice1 i xs = ([xs ! nat i], take (nat i) xs @ drop (Suc (nat i)) xs)"
proof -
  have p: "slice_pos (length xs) i = nat i"
    unfolding slice_pos_def using assms by (simp add: min_def)
  have "nat i < length xs" using assms by linarith
  then have "take 1 (drop (nat i) xs) = [xs ! nat i]"
    by (simp add: Cons_nth_drop_Suc [symmetric])
  then show ?thesis unfolding splice1_def p by (simp add: Let_def)
qed

lemma random_index_in_range:
  assumes "0 \<le> r" and "r < 1" and "0 < n"
  shows "0 \<le> \<lfloor>r * real n\<rfloor>" and "\<lfloor>r * real n\<rfloor> < int n"
proof -
  show "0 \<le> \<lfloor>r * real n\<rfloor>" using assms by simp
  have "r * real n < 1 * real n" using assms by (intro mult_strict_right_mono) simp_all
  then show "\<lfloor>r * real n\<rfloor> < int n" by (simp add: floor_less_iff)
qed

lemma alt_loop_defined:
  "unit_source rnd \<Longrightarrow> None \<notin> set selected \<Longrightarrow>
   None \<notin> set (fst (alt_loop rnd k selected candidatePool))"
proof (induction rnd k selected candidatePool rule: alt_loop.induct)
  case (1 rnd k selected candidatePool)
  show ?case
  proof (cases "length selected < 6 \<and> 0 < length candidatePool")
    case False
    then show ?thesis using "1.prems" by (subst alt_loop.simps) auto
  next
    case True
    let ?i = "\<lfloor>rnd k * real (length candidatePool)\<rfloor>"
    have r: "0 \<le> rnd k" "rnd k < 1" using "1.prems"(1) unfolding unit_source_def by auto
    have i: "0 \<le> ?i" "?i < int (length candidatePool)"
      using random_index_in_range [OF r] True by simp_all
    note sp = splice1_in_range [OF i]
    have "None \<notin> set (fst (alt_loop rnd (Suc k) (selected @ [Some (candidatePool ! nat ?i)])
             (take (nat ?i) candidatePool @ drop (Suc (nat ?i)) candidatePool)))"
      using "1.IH" [OF True refl sp [symmetric] "1.prems"(1)] "1.prems"(2) by simp
    then show ?thesis
      using True by (subst alt_loop.simps) (simp add: sp Let_def)
  qed
qed

lemma sort_numbers_defined:
  assumes "None \<notin> set selected"
  shows "\<exists>ns. sort_numbers selected = map Some ns \<and> sorted ns \<and> length ns = length selected"
proof -
  have "\<forall>x \<in> set selected. \<not> x = None" using assms by metis
  then have f: "filter (\<lambda>x. x = None) selected = []" by (rule filter_False)
  have l: "length (List.map_filter (\<lambda>x. x) selected) = length selected"
    using assms
  proof (induction selected)
    case Nil
    show ?case by (simp add: List.map_filter_simps)
  next
    case (Cons x xs)
    then show ?case by (cases x) (simp_all add: List.map_filter_simps)
  qed
  show ?thesis
    unfolding sort_numbers_def f using l by (intro exI [of _ "sort (List.map_filter (\<lambda>x. x) selected)"]) simp
qed

lemma alt_step_sorted_six:
  assumes "unit_source rnd" and "\<forall>s \<in> set (fst st). sorted_six s"
  shows "\<forall>s \<in> set (fst (alt_step tc a rnd st n)). sorted_six s"
proof -
  obtain alternatives k where st: "st = (alternatives, k)" by (cases st)
  let ?res = "alt_loop rnd k [] (candidatePool_of n tc a)"
  have d: "None \<notin> set (fst ?res)" by (rule alt_loop_defined [OF assms(1)]) simp
  have "sorted_six (sort_numbers (fst ?res))" if "length (fst ?res) = 6"
    using sort_numbers_defined [OF d] that unfolding sorted_six_def by auto
  then show ?thesis
    using assms(2) unfolding alt_step_def st by (auto split: prod.splits)
qed

lemma alternative_sets_sorted_six:
  assumes "unit_source rnd"
  shows "\<forall>s \<in> set (fst (generateAlternativeSets scores a rnd k)). sorted_six s"
proof -
  let ?tc = "slice 0 20 (ranked scores)"
  have "\<forall>s \<in> set (fst (foldl (alt_step ?tc a rnd) st ns)). sorted_six s"
    if "\<forall>s \<in> set (fst st). sorted_six s" for st ns
    using that
  proof (induction ns arbitrary: st)
    case Nil
    then show ?case by simp
  next
    case (Cons n ns)
    show ?case using Cons.IH [OF alt_step_sorted_six [OF assms Cons.prems]] by simp
  qed
  from this [of "([], k)" "[0, 1, 2]"] show ?thesis
    unfolding generateAlternativeSets_def by (simp add: Let_def)
qed

lemma alternatives_of_prediction:
  assumes "unit_source rnd"
  shows "alternativeSets (generatePrediction this rnd) =
           fst (generateAlternativeSets (calculateNumberScores this (performCompleteAnalysis this))
                  (performCompleteAnalysis this) rnd 7)"
  unfolding generatePrediction_def
  by (simp add: Let_def selectOptimalNumbers_first_attempt [OF fst_scores assms]
        predictBonusBall_def split: prod.splits)

lemma unit_rnd_dup: "unit_source rnd_dup"
  unfolding unit_source_def rnd_dup_def by simp

lemma aggressive_pool_repeats:
  "candidatePool_of 1 tc (performCompleteAnalysis (new_engine history22 no_custom))
     = [1, 2, 3, 10, 11, 12, 1, 2, 3, 10, 11, 12, 13, 14, 15]"
proof -
  have "candidatePool_of 1 tc (performCompleteAnalysis (new_engine history22 no_custom))
      = candidatePool_of 1 [] (scoring_view (new_engine history22 no_custom))"
    unfolding candidatePool_of_def performCompleteAnalysis_def scoring_view_def by simp
  also have "\<dots> = [1, 2, 3, 10, 11, 12, 1, 2, 3, 10, 11, 12, 13, 14, 15]"
    by code_simp
  finally show ?thesis .
qed

lemma alternatives_history22:
  "alternativeSets (generatePrediction (new_engine history22 no_custom) rnd_dup)
     = [map Some [4, 5, 6, 7, 8, 9], map Some [1, 1, 2, 3, 10, 11], map Some [1, 2, 3, 10, 11, 12]]"
  unfolding alternatives_of_prediction [OF unit_rnd_dup] scores_view alternatives_view
  by code_simp

text \<open>
  Claim C10. On a random source that keeps the contract of \<^verbatim>\<open>Math.random()\<close>, every
  alternative set has exactly 6 elements, all defined and in ascending order. The pool of
  the second ("aggressive") strategy is the first 15 elements of the due numbers followed
  by the cold numbers; and there are a history and a random source for which a number is
  both due and cold and an alternative set holds the same number twice (\<open>history22\<close> and
  \<open>rnd_dup\<close>: the second set is 1, 1, 2, 3, 10, 11).
\<close>

theorem alternative_sets_sorted_not_distinct:
  "(\<forall>this rnd. unit_source rnd \<longrightarrow>
      (\<forall>s \<in> set (alternativeSets (generatePrediction this rnd)).
          length s = 6 \<and> (\<exists>ns. s = map Some ns \<and> sorted ns)))
   \<and> (\<forall>tc a. candidatePool_of 1 tc a = slice 0 15 (dueNumbers a @ coldNumbers a))
   \<and> (\<exists>this rnd. unit_source rnd \<and>
         (\<exists>n. n \<in> set (dueNumbers (performCompleteAnalysis this))
             \<and> n \<in> set (coldNumbers (performCompleteAnalysis this)))
       \<and> (\<exists>s \<in> set (alternativeSets (generatePrediction this rnd)). \<not> distinct s))"
proof (intro conjI allI impI)
  fix this rnd
  assume u: "unit_source rnd"
  show "\<forall>s \<in> set (alternativeSets (generatePrediction this rnd)).
          length s = 6 \<and> (\<exists>ns. s = map Some ns \<and> sorted ns)"
    unfolding alternatives_of_prediction [OF u]
    using alternative_sets_sorted_six [OF u] unfolding sorted_six_def by blast
next
  fix tc a
  show "candidatePool_of 1 tc a = slice 0 15 (dueNumbers a @ coldNumbers a)"
    unfolding candidatePool_of_def by simp
next
  let ?e = "new_engine history22 no_custom"
  have due: "dueNumbers (performCompleteAnalysis ?e) = [1, 2, 3, 10, 11, 12]"
    unfolding performCompleteAnalysis_def analysis.select_convs by code_simp
  have cold: "coldNumbers (performCompleteAnalysis ?e) = [1, 2, 3] @ [10..<22]"
    unfolding performCompleteAnalysis_def analysis.select_convs by code_simp
  have "map Some [1, 1, 2, 3, 10, 11] \<in> set (alternativeSets (generatePrediction ?e rnd_dup))"
    unfolding alternatives_history22 by simp
  moreover have "\<not> distinct (map Some [1, 1, 2, 3, 10, 11 :: nat])" by simp
  moreover have "\<exists>n. n \<in> set (dueNumbers (performCompleteAnalysis ?e))
                    \<and> n \<in> set (coldNumbers (performCompleteAnalysis ?e))"
    unfolding due cold by (intro exI [of _ 1]) simp
  ultimately show "\<exists>this rnd. unit_source rnd \<and>
         (\<exists>n. n \<in> set (dueNumbers (performCompleteAnalysis this))
             \<and> n \<in> set (coldNumbers (performCompleteAnalysis this)))
       \<and> (\<exists>s \<in> set (alternativeSets (generatePrediction this rnd)). \<not> distinct s)"
    using unit_rnd_dup by blast
qed

text \<open>The three alternative sets for \<open>history22\<close> and \<open>rnd_dup\<close>.\<close>

theorem alternative_sets_sorted_not_distinct_witness:
  "unit_source rnd_dup
   \<and> map Some [1, 1, 2, 3, 10, 11 :: nat]
       \<in> set (alternativeSets (generatePrediction (new_engine history22 no_custom) rnd_dup))
   \<and> length (map Some [1, 1, 2, 3, 10, 11 :: nat]) = 6
   \<and> (\<exists>ns. map Some [1, 1, 2, 3, 10, 11 :: nat] = map Some ns \<and> sorted ns)"
proof -
  have m: "map Some [1, 1, 2, 3, 10, 11 :: nat]
             \<in> set (alternativeSets (generatePrediction (new_engine history22 no_custom) rnd_dup))"
    unfolding alternatives_history22 by simp
  have every: "\<forall>this rnd. unit_source rnd \<longrightarrow>
      (\<forall>s \<in> set (alternativeSets (generatePrediction this rnd)).
          length s = 6 \<and> (\<exists>ns. s = map Some ns \<and> sorted ns))"
    using alternative_sets_sorted_not_distinct by (rule conjunct1)
  have c: "length (map Some [1, 1, 2, 3, 10, 11 :: nat]) = 6
             \<and> (\<exists>ns. map Some [1, 1, 2, 3, 10, 11 :: nat] = map Some ns \<and> sorted ns)"
    by (rule every [rule_format, OF unit_rnd_dup m])
  show ?thesis
    by (intro conjI) (rule unit_rnd_dup m c [THEN conjunct1] c [THEN conjunct2])+
qed

section \<open>Scores are not negative\<close>

lemma nonneg_Fin: "0 \<le> s \<Longrightarrow> nonneg (Fin s)"
  unfolding nonneg_def by simp

lemma nonneg_jadd: "nonneg x \<Longrightarrow> nonneg y \<Longrightarrow> nonneg (jadd x y)"
  unfolding nonneg_def by auto

lemma nonneg_jmul: "nonneg x \<Longrightarrow> 0 \<le> c \<Longrightarrow> nonneg (jmul x (Fin c))"
  unfolding nonneg_def by auto

lemma nonneg_min: "nonneg x \<Longrightarrow> 0 \<le> c \<Longrightarrow> nonneg (Math_min x (Fin c))"
  unfolding nonneg_def Math_min_def by auto

lemma positive_add_weight:
  "positive_table t \<Longrightarrow> 0 < w \<Longrightarrow> positive_table (add_weight num w t)"
  unfolding positive_table_def by (induction num w t rule: add_weight.induct) auto

lemma foldl_invariant:
  "I s \<Longrightarrow> (\<And>s x. I s \<Longrightarrow> x \<in> set xs \<Longrightarrow> I (f s x)) \<Longrightarrow> I (foldl f s xs)"
  by (induction xs arbitrary: s) simp_all

lemma positive_allTime: "positive_table (calculateAllTimeFrequency this)"
  unfolding calculateAllTimeFrequency_def
proof (rule foldl_invariant)
  show "positive_table []" unfolding positive_table_def by simp
next
  fix s :: "(nat \<times> real) list" and x :: "nat \<times> LottoDraw"
  assume s: "positive_table s"
  obtain index draw where x: "x = (index, draw)" by (cases x)
  have "positive_table (foldl (\<lambda>f num. add_weight num w f) s ns)" if "0 < w" for w ns
    by (rule foldl_invariant [where I = positive_table]) (simp_all add: s positive_add_weight that)
  then show "positive_table (case x of (index, draw) \<Rightarrow>
        let weight = (if isRecent this index then 2 else 1)
        in foldl (\<lambda>f num. add_weight num weight f) s (mainNumbers draw))"
    unfolding x by (simp add: Let_def)
qed

lemma positive_recent: "positive_table (calculateRecentFrequency this k)"
  unfolding calculateRecentFrequency_def Let_def
proof (rule foldl_invariant)
  show "positive_table []" unfolding positive_table_def by simp
next
  fix s :: "(nat \<times> real) list" and x :: LottoDraw
  assume s: "positive_table s"
  show "positive_table (foldl (\<lambda>f num. add_weight num 1 f) s (mainNumbers x))"
    by (rule foldl_invariant [where I = positive_table]) (simp_all add: s positive_add_weight)
qed

lemma or_zero_nonneg: "positive_table t \<Longrightarrow> 0 \<le> or_zero t num"
  unfolding positive_table_def or_zero_def
  by (auto split: option.splits dest!: map_of_SomeD)

lemma max_fold_Fin: "foldl Math_max (Fin a) (map Fin vs) = Fin (foldl max a vs)"
  by (induction vs arbitrary: a) (simp_all add: Math_max_def max_def)

lemma max_fold_ge: "(a::real) \<le> foldl max a vs"
proof (induction vs arbitrary: a)
  case Nil
  show ?case by simp
next
  case (Cons v vs)
  have "a \<le> max a v" by simp
  also have "\<dots> \<le> foldl max (max a v) vs" by (rule Cons.IH)
  finally show ?case by simp
qed

lemma max_spread_cases:
  assumes "positive_table t"
  shows "Math_max_spread (map (\<lambda>e. Fin (snd e)) t) = NInf
       \<or> (\<exists>m. Math_max_spread (map (\<lambda>e. Fin (snd e)) t) = Fin m \<and> 0 < m)"
proof (cases t)
  case Nil
  then show ?thesis unfolding Math_max_spread_def by simp
next
  case (Cons e es)
  have p: "0 < snd e" using assms unfolding positive_table_def Cons by simp
  have "map (\<lambda>e. Fin (snd e)) es = map Fin (map snd es)" by simp
  then have "Math_max_spread (map (\<lambda>e. Fin (snd e)) t) = Fin (foldl max (snd e) (map snd es))"
    unfolding Math_max_spread_def Cons by (simp add: Math_max_def max_fold_Fin del: map_map)
  moreover have "0 < foldl max (snd e) (map snd es)"
    using p max_fold_ge [of "snd e" "map snd es"] by linarith
  ultimately show ?thesis by blast
qed

lemma frequency_ratio_nonneg:
  assumes "positive_table t"
  shows "nonneg (jdiv (Fin (or_zero t num)) (Math_max_spread (map (\<lambda>e. Fin (snd e)) t)))"
  using max_spread_cases [OF assms] or_zero_nonneg [OF assms, of num]
  unfolding nonneg_def by auto

text \<open>The state of the inner loop of \<open>gaps_of\<close>: \<open>lastSeen\<close> is \<open>-1\<close> or an index.\<close>

lemma gaps_step_lastSeen:
  assumes "snd st < int n" and "fst p < n"
  shows "snd (gaps_step this num st p) < int n"
  using assms unfolding gaps_step_def by (auto split: prod.splits)

lemma gaps_loop_lastSeen:
  "snd (foldl (gaps_step this num) ([], - 1) (enumerate 0 (draws this))) < int (length (draws this))"
proof (rule foldl_invariant [where I = "\<lambda>st. snd st < int (length (draws this))"])
  show "snd (([], - 1) :: int list \<times> int) < int (length (draws this))" by simp
next
  fix s :: "int list \<times> int" and x :: "nat \<times> LottoDraw"
  assume "snd s < int (length (draws this))" and "x \<in> set (enumerate 0 (draws this))"
  then show "snd (gaps_step this num s x) < int (length (draws this))"
    by (intro gaps_step_lastSeen) (auto simp: in_set_enumerate_eq)
qed

lemma gaps_step_started:
  "(snd st = - 1 \<longrightarrow> fst st = []) \<Longrightarrow>
   (snd (gaps_step this num st p) = - 1 \<longrightarrow> fst (gaps_step this num st p) = [])"
  unfolding gaps_step_def by (auto split: prod.splits simp: Let_def)

lemma current_gap_nonneg: "0 \<le> last_or_zero (gaps_of this num)"
proof -
  let ?st = "foldl (gaps_step this num) ([], - 1) (enumerate 0 (draws this))"
  have l: "snd ?st < int (length (draws this))" by (rule gaps_loop_lastSeen)
  have "snd ?st = - 1 \<longrightarrow> fst ?st = []"
    by (rule foldl_invariant [where I = "\<lambda>st. snd st = - 1 \<longrightarrow> fst st = []"])
       (simp_all add: gaps_step_started)
  then show ?thesis
    using l unfolding gaps_of_def last_or_zero_def
    by (cases ?st) (auto simp: Let_def)
qed

lemma gap_term_nonneg:
  assumes "0 \<le> cg"
  shows "nonneg (Math_min (jmul (if jgt e (Fin 0) then jdiv (Fin (real_of_int cg)) e else Fin 0) (Fin 50)) (Fin 100))"
proof -
  have "nonneg (if jgt e (Fin 0) then jdiv (Fin (real_of_int cg)) e else Fin 0)"
    using assms unfolding nonneg_def jgt_def by (cases e) auto
  then show ?thesis by (intro nonneg_min nonneg_jmul) simp_all
qed

lemma score_nonneg:
  assumes "0 \<le> frequency (weights this)" and "0 \<le> recency (weights this)"
    and "0 \<le> gaps (weights this)"
  shows "nonneg (score_of this (performCompleteAnalysis this) num)"
proof -
  let ?a = "performCompleteAnalysis this"
  have f: "allTimeFrequency ?a = calculateAllTimeFrequency this"
    and r: "recentFrequency ?a = calculateRecentFrequency this 20"
    and g: "gapTable ?a = calculateGaps this"
    unfolding performCompleteAnalysis_def by simp_all
  have cg: "0 \<le> (case map_of (calculateGaps this) num of None \<Rightarrow> 0 | Some gapArray \<Rightarrow> last_or_zero gapArray)"
    unfolding calculateGaps_def map_of_tabulate using current_gap_nonneg [of this num] by simp
  have s1: "nonneg (jadd (Fin 0) (jmul (jmul (jdiv (Fin (or_zero (calculateAllTimeFrequency this) num))
              (Math_max_spread (map (\<lambda>e. Fin (snd e)) (calculateAllTimeFrequency this))))
              (Fin (frequency (weights this)))) (Fin 100)))"
    by (intro nonneg_jadd nonneg_jmul nonneg_Fin frequency_ratio_nonneg positive_allTime assms) simp_all
  have "0 \<le> min (or_zero (calculateRecentFrequency this 20) num * 25) 100 * recency (weights this)"
    using or_zero_nonneg [OF positive_recent, of this 20 num] assms(2) by simp
  then have s2: "nonneg (Fin (min (or_zero (calculateRecentFrequency this 20) num * 25) 100 * recency (weights this)))"
    by (rule nonneg_Fin)
  have s3: "nonneg (jmul (Math_min (jmul
              (if jgt (as_number (expectedGaps ?a) num) (Fin 0)
               then jdiv (Fin (real_of_int (case map_of (calculateGaps this) num of None \<Rightarrow> 0
                                             | Some gapArray \<Rightarrow> last_or_zero gapArray)))
                         (as_number (expectedGaps ?a) num)
               else Fin 0) (Fin 50)) (Fin 100)) (Fin (gaps (weights this))))"
    by (intro nonneg_jmul gap_term_nonneg cg assms)
  have m: "nonneg (if b then jmul x (Fin c) else x)" if "nonneg x" "0 \<le> c" for b x c
    using that by (simp add: nonneg_jmul)
  show ?thesis
    unfolding score_of_def Let_def f r g
    by (intro m nonneg_jadd s1 s2 s3) simp_all
qed

text \<open>
  Claim C5. For every draw history and every weight record whose \<open>frequency\<close>, \<open>recency\<close>
  and \<open>gaps\<close> components are not negative (the other three are not read), the score of
  each number 1..49 is a finite number greater than or equal to 0.
\<close>

theorem scores_nonnegative:
  assumes "0 \<le> frequency (weights this)" and "0 \<le> recency (weights this)"
    and "0 \<le> gaps (weights this)"
  shows "\<forall>num \<in> {1..49}.
           \<exists>s. map_of (calculateNumberScores this (performCompleteAnalysis this)) num = Some (Fin s)
              \<and> 0 \<le> s \<and> jge (Fin s) (Fin 0)"
proof
  fix num :: nat
  assume "num \<in> {1..49}"
  then have "num \<in> set [1..<50]" by auto
  then have "map_of (calculateNumberScores this (performCompleteAnalysis this)) num
               = Some (score_of this (performCompleteAnalysis this) num)"
    unfolding calculateNumberScores_def map_of_tabulate by simp
  moreover obtain s where "score_of this (performCompleteAnalysis this) num = Fin s" "0 \<le> s"
    using score_nonneg [OF assms, of num] unfolding nonneg_def by blast
  ultimately show "\<exists>s. map_of (calculateNumberScores this (performCompleteAnalysis this)) num = Some (Fin s)
              \<and> 0 \<le> s \<and> jge (Fin s) (Fin 0)"
    by (simp add: jge_def jle_def)
qed

text \<open>The history of one draw with the default weights, number 1.\<close>

theorem scores_nonnegative_witness:
  "0 \<le> frequency (weights (new_engine [draw_low] no_custom))
   \<and> 0 \<le> recency (weights (new_engine [draw_low] no_custom))
   \<and> 0 \<le> gaps (weights (new_engine [draw_low] no_custom))
   \<and> (1::nat) \<in> {1..49}
   \<and> (\<exists>s. map_of (calculateNumberScores (new_engine [draw_low] no_custom)
                     (performCompleteAnalysis (new_engine [draw_low] no_custom))) 1 = Some (Fin s)
          \<and> 0 \<le> s)"
proof -
  let ?e = "new_engine [draw_low] no_custom"
  have w: "0 \<le> frequency (weights ?e)" "0 \<le> recency (weights ?e)" "0 \<le> gaps (weights ?e)"
    by (simp_all add: new_engine_def no_custom_def or_default_def)
  have "(1::nat) \<in> {1..49}" by simp
  then show ?thesis using scores_nonnegative [OF w] w by blast
qed

end
